theory Spec2Isabelle
  imports Complex_Main "HOL-Library.Multiset"
begin

section \<open>Double-precision values\<close>

text \<open>
  The C++ type \<^verbatim>\<open>double\<close> is modelled by its four kinds of value: a finite number, the
  two infinities and NaN. One zero stands for the two signed zeros: they compare equal and
  differ only in the sign of a quotient by zero, and the divisors of this file are a
  weight asserted to be non-zero and a sum of squares, which is never the negative zero.
  The special values follow IEEE 754: an invalid operation (\<open>0/0\<close>, \<open>\<infinity> - \<infinity>\<close>, \<open>0 * \<infinity>\<close>)
  gives NaN, NaN propagates, and every comparison with NaN except \<^verbatim>\<open>!=\<close> is false.

  The operations come in two layers. \<open>dadd\<close>, \<open>dsub\<close>, \<open>dmul\<close> and \<open>ddiv\<close> compute the finite
  case in the reals, without rounding or overflow; the sums of the assembler are written
  with them, its contract being one of exact arithmetic (the order of summation across
  threads is unspecified). \<open>fadd\<close>, \<open>fsub\<close>, \<open>fmul\<close> and \<open>fdiv\<close>, further down, round the
  finite case to the nearest double, as the machine does; the controller, the distance of
  two lines and the inflation radius are written with them.
\<close>

datatype double = Fin real | PInf | NInf | NaN

fun dneg :: "double \<Rightarrow> double" where
  "dneg (Fin a) = Fin (- a)"
| "dneg PInf = NInf"
| "dneg NInf = PInf"
| "dneg NaN = NaN"

fun dadd :: "double \<Rightarrow> double \<Rightarrow> double" where
  "dadd NaN y = NaN"
| "dadd x NaN = NaN"
| "dadd (Fin a) (Fin b) = Fin (a + b)"
| "dadd PInf NInf = NaN"
| "dadd NInf PInf = NaN"
| "dadd PInf y = PInf"
| "dadd x PInf = PInf"
| "dadd NInf y = NInf"
| "dadd x NInf = NInf"

definition dsub :: "double \<Rightarrow> double \<Rightarrow> double" where
  "dsub x y = dadd x (dneg y)"

text \<open>The sign of a value that is not NaN: \<open>-1\<close>, \<open>0\<close> or \<open>1\<close>.\<close>

fun dsgn :: "double \<Rightarrow> int" where
  "dsgn (Fin a) = (if a < 0 then - 1 else if a = 0 then 0 else 1)"
| "dsgn PInf = 1"
| "dsgn NInf = - 1"
| "dsgn NaN = 0"

definition dinf :: "int \<Rightarrow> double" where
  "dinf s = (if s < 0 then NInf else PInf)"

fun dmul :: "double \<Rightarrow> double \<Rightarrow> double" where
  "dmul NaN y = NaN"
| "dmul x NaN = NaN"
| "dmul (Fin a) (Fin b) = Fin (a * b)"
| "dmul x y = (if dsgn x = 0 \<or> dsgn y = 0 then NaN else dinf (dsgn x * dsgn y))"

fun ddiv :: "double \<Rightarrow> double \<Rightarrow> double" where
  "ddiv NaN y = NaN"
| "ddiv x NaN = NaN"
| "ddiv (Fin a) (Fin b) =
     (if b \<noteq> 0 then Fin (a / b) else if a = 0 then NaN else dinf (dsgn (Fin a)))"
| "ddiv (Fin a) y = Fin 0"
| "ddiv x (Fin b) = dinf (dsgn x * (if b < 0 then - 1 else 1))"
| "ddiv x y = NaN"

text \<open>The comparisons \<^verbatim>\<open><\<close>, \<^verbatim>\<open><=\<close>, \<^verbatim>\<open>==\<close> and \<^verbatim>\<open>!=\<close>.\<close>

fun dlt :: "double \<Rightarrow> double \<Rightarrow> bool" where
  "dlt NaN y = False"
| "dlt x NaN = False"
| "dlt (Fin a) (Fin b) = (a < b)"
| "dlt x NInf = False"
| "dlt PInf y = False"
| "dlt x y = True"

definition deq :: "double \<Rightarrow> double \<Rightarrow> bool" where
  "deq x y = (x \<noteq> NaN \<and> y \<noteq> NaN \<and> x = y)"

definition dne :: "double \<Rightarrow> double \<Rightarrow> bool" where
  "dne x y = (\<not> deq x y)"

definition dle :: "double \<Rightarrow> double \<Rightarrow> bool" where
  "dle x y = (dlt x y \<or> deq x y)"

text \<open>\<^verbatim>\<open>std::min(a, b)\<close> is \<^verbatim>\<open>(b < a) ? b : a\<close>.\<close>

definition std_min :: "double \<Rightarrow> double \<Rightarrow> double" where
  "std_min a b = (if dlt b a then b else a)"

text \<open>
  Rounding. A finite double is \<open>m * 2\<^sup>e\<close> with \<open>\<bar>m\<bar> < 2\<^sup>5\<^sup>3\<close> and \<open>-1074 \<le> e \<le> 971\<close>. \<open>fl x\<close> is
  the double nearest to the real \<open>x\<close>, a tie going to the even significand (the default
  rounding mode of IEEE 754): \<open>x\<close> is divided by the power of two that leaves 53
  significant bits before the point (fewer below \<open>2\<^sup>-\<^sup>1\<^sup>0\<^sup>2\<^sup>2\<close>, where the exponent stays at
  \<open>-1074\<close>: gradual underflow), rounded to an integer, and multiplied back; a rounded
  value that reaches \<open>2\<^sup>1\<^sup>0\<^sup>2\<^sup>4\<close> overflows to the infinity of the sign of \<open>x\<close>.
\<close>

definition round_half_even :: "real \<Rightarrow> int" where
  "round_half_even q =
     (let f = \<lfloor>q\<rfloor>; d = q - of_int f
      in if d < 1 / 2 then f else if 1 / 2 < d then f + 1 else if even f then f else f + 1)"

definition fl :: "real \<Rightarrow> double" where
  "fl x =
     (if x = 0 then Fin 0
      else
        let e = max (\<lfloor>log 2 \<bar>x\<bar>\<rfloor> - 52) (- 1074);
            y = of_int (round_half_even (x / 2 powr of_int e)) * 2 powr of_int e
        in if 2 ^ 1024 \<le> \<bar>y\<bar> then (if x < 0 then NInf else PInf) else Fin y)"

text \<open>
  The operators \<^verbatim>\<open>+\<close>, \<^verbatim>\<open>-\<close>, \<^verbatim>\<open>*\<close> and \<^verbatim>\<open>/\<close> of \<^verbatim>\<open>double\<close>: on finite operands the exact result
  rounded once (each operation on its own: no fused multiply-add, no wider intermediate
  format); on the other operands, and for a division by zero, the special values above.
\<close>

definition fadd :: "double \<Rightarrow> double \<Rightarrow> double" where
  "fadd x y = (case (x, y) of (Fin a, Fin b) \<Rightarrow> fl (a + b) | _ \<Rightarrow> dadd x y)"

definition fsub :: "double \<Rightarrow> double \<Rightarrow> double" where
  "fsub x y = (case (x, y) of (Fin a, Fin b) \<Rightarrow> fl (a - b) | _ \<Rightarrow> dsub x y)"

definition fmul :: "double \<Rightarrow> double \<Rightarrow> double" where
  "fmul x y = (case (x, y) of (Fin a, Fin b) \<Rightarrow> fl (a * b) | _ \<Rightarrow> dmul x y)"

definition fdiv :: "double \<Rightarrow> double \<Rightarrow> double" where
  "fdiv x y =
     (case (x, y) of
        (Fin a, Fin b) \<Rightarrow> if b = 0 then ddiv x y else fl (a / b)
      | _ \<Rightarrow> ddiv x y)"

section \<open>Failures\<close>

text \<open>
  A failed \<^verbatim>\<open>assert\<close> aborts the program; the model returns it as a value naming the
  asserted expression. The assertions are modelled as compiled in.
\<close>

datatype error = AssertionFailed string

section \<open>The conservative advancement controller (ccd.cpp)\<close>

text \<open>
  The oracle is the \<^verbatim>\<open>std::function\<close> argument \<^verbatim>\<open>ccd(min_distance, no_zero_toi, toi)\<close>. Its
  third parameter is a reference: the oracle receives the current value of \<^verbatim>\<open>toi\<close> and
  leaves a new one, which the model returns beside the boolean.
\<close>

type_synonym ccd_oracle = "double \<Rightarrow> bool \<Rightarrow> double \<Rightarrow> bool \<times> double"

text \<open>One call of the oracle as the controller makes it: \<open>(min_distance, no_zero_toi)\<close>.\<close>

type_synonym oracle_query = "double \<times> bool"

text \<open>\<^verbatim>\<open>static constexpr double SMALL_TOI = 1e-6\<close>: the double nearest to \<open>10\<^sup>-\<^sup>6\<close>.\<close>

definition SMALL_TOI :: double where
  "SMALL_TOI = fl (1 / 1000000)"

text \<open>
  \<open>ccd_strategy\<close> returns the oracle calls it made, in order, and its outcome: an assertion
  failure, or the returned boolean with the final value of the reference \<^verbatim>\<open>toi\<close>.
  The inner declaration \<^verbatim>\<open>bool is_impacting = ccd(0, true, toi)\<close> is a new variable
  (\<open>is_impacting'\<close> here) that goes out of scope before \<^verbatim>\<open>return is_impacting\<close>.
\<close>

definition ccd_strategy ::
  "ccd_oracle \<Rightarrow> double \<Rightarrow> double \<Rightarrow> double \<Rightarrow> oracle_query list \<times> (error + bool \<times> double)" where
  "ccd_strategy ccd initial_distance conservative_rescaling toi =
     (if deq initial_distance (Fin 0) then ([], Inr (True, Fin 0))
      else
        let min_distance = fmul (fsub (Fin 1) conservative_rescaling) initial_distance in
        if \<not> dlt min_distance initial_distance
        then ([], Inl (AssertionFailed ''min_distance < initial_distance''))
        else
          let (is_impacting, toi1) = ccd min_distance False toi in
          if is_impacting \<and> dlt toi1 SMALL_TOI then
            let (is_impacting', toi2) = ccd (Fin 0) True toi1 in
            if is_impacting' then
              let toi3 = fmul toi2 conservative_rescaling in
              if \<not> dne toi3 (Fin 0)
              then ([(min_distance, False), (Fin 0, True)], Inl (AssertionFailed ''toi != 0''))
              else ([(min_distance, False), (Fin 0, True)], Inr (is_impacting, toi3))
            else ([(min_distance, False), (Fin 0, True)], Inr (is_impacting, toi2))
          else ([(min_distance, False)], Inr (is_impacting, toi1)))"

section \<open>Matrices, the collision mesh and the constraint set\<close>

text \<open>
  An Eigen matrix is its extent and its coefficients; \<^verbatim>\<open>V.size()\<close> is \<open>rows * cols\<close>.
\<close>

record 'a matrix =
  rows :: nat
  cols :: nat
  coeff :: "nat \<Rightarrow> nat \<Rightarrow> 'a"

definition matrix_size :: "'a matrix \<Rightarrow> nat" where
  "matrix_size M = rows M * cols M"

text \<open>What the code reads of a \<^verbatim>\<open>CollisionMesh\<close>.\<close>

record collision_mesh =
  num_vertices :: nat
  edges :: "int matrix"
  faces :: "int matrix"
  can_collide :: "nat \<Rightarrow> nat \<Rightarrow> bool"

text \<open>
  A sparse vector is its size and its stored entries; a sparse matrix is its extent and a
  list of triplets \<open>(row, column, value)\<close>, the coefficient at a position being the sum of
  the triplets there (\<^verbatim>\<open>setFromTriplets\<close> adds duplicates up).
\<close>

record sparse_vector =
  sv_size :: nat
  sv_entries :: "(nat \<times> double) list"

type_synonym triplet = "nat \<times> nat \<times> double"

record sparse_matrix =
  sm_rows :: nat
  sm_cols :: nat
  sm_triplets :: "triplet list"

definition sm_coeff :: "sparse_matrix \<Rightarrow> nat \<Rightarrow> nat \<Rightarrow> double" where
  "sm_coeff M i j =
     fold (\<lambda>(r, c, v) s. if r = i \<and> c = j then dadd s v else s) (sm_triplets M) (Fin 0)"

text \<open>\<^verbatim>\<open>Eigen::SparseMatrix<double>(r, c)\<close>, \<^verbatim>\<open>setFromTriplets\<close> and \<^verbatim>\<open>+=\<close>.\<close>

definition sm_zero :: "nat \<Rightarrow> nat \<Rightarrow> sparse_matrix" where
  "sm_zero r c = \<lparr>sm_rows = r, sm_cols = c, sm_triplets = []\<rparr>"

definition setFromTriplets :: "sparse_matrix \<Rightarrow> triplet list \<Rightarrow> sparse_matrix" where
  "setFromTriplets M ts = M\<lparr>sm_triplets := ts\<rparr>"

definition sm_add :: "sparse_matrix \<Rightarrow> sparse_matrix \<Rightarrow> sparse_matrix" where
  "sm_add A B = A\<lparr>sm_triplets := sm_triplets A @ sm_triplets B\<rparr>"


text \<open>
  A \<^verbatim>\<open>CollisionConstraint\<close> (its class is not among the sources) is the methods and fields
  the assembler uses; the weight gradient, of which the code reads the size and the
  transpose, is taken to be a sparse vector. \<^verbatim>\<open>Constraints\<close> is indexed from \<open>0\<close> to
  \<open>size() - 1\<close>: a list.
\<close>

record collision_constraint =
  compute_potential :: "double matrix \<Rightarrow> int matrix \<Rightarrow> int matrix \<Rightarrow> double \<Rightarrow> double"
  compute_potential_gradient ::
    "double matrix \<Rightarrow> int matrix \<Rightarrow> int matrix \<Rightarrow> double \<Rightarrow> double list"
  compute_potential_hessian ::
    "double matrix \<Rightarrow> int matrix \<Rightarrow> int matrix \<Rightarrow> double \<Rightarrow> bool \<Rightarrow> double matrix"
  vertex_indices :: "int matrix \<Rightarrow> int matrix \<Rightarrow> int list"
  compute_distance :: "double matrix \<Rightarrow> int matrix \<Rightarrow> int matrix \<Rightarrow> double"
  weight :: double
  weight_gradient :: sparse_vector

type_synonym constraints = "collision_constraint list"

text \<open>
  The scatter utilities of \<^verbatim>\<open>ipc/utils/local_to_global.hpp\<close> are not among the sources:
  they are parameters. Each takes the local derivative, the vertex indices, the dimension
  and the destination, and returns the destination updated.
\<close>

record local_to_global =
  local_gradient_to_global_gradient ::
    "double list \<Rightarrow> int list \<Rightarrow> nat \<Rightarrow> double list \<Rightarrow> double list"
  local_gradient_to_global_sparse_gradient ::
    "double list \<Rightarrow> int list \<Rightarrow> nat \<Rightarrow> sparse_vector \<Rightarrow> sparse_vector"
  local_hessian_to_global_triplets ::
    "double matrix \<Rightarrow> int list \<Rightarrow> nat \<Rightarrow> triplet list \<Rightarrow> triplet list"

section \<open>Parallel loops with thread-local storage\<close>

text \<open>
  \<^verbatim>\<open>tbb::parallel_for\<close> over \<^verbatim>\<open>blocked_range<size_t>(0, n)\<close> cuts the range into
  sub-ranges and runs the body on each, on some worker thread;
  \<^verbatim>\<open>enumerable_thread_specific\<close> gives every worker its own accumulator, created with the
  initial value. A worker runs its sub-ranges one after the other and touches no other
  worker's accumulator, so an execution is described by a schedule: for every accumulator,
  in the order the final loop visits them, the sub-ranges \<open>(begin, end)\<close> its worker ran, in
  order. A schedule is valid for \<open>n\<close> when its sub-ranges cover every index below \<open>n\<close> once.
\<close>

type_synonym blocked_range = "nat \<times> nat"

type_synonym schedule = "blocked_range list list"

definition valid_schedule :: "nat \<Rightarrow> schedule \<Rightarrow> bool" where
  "valid_schedule n sched =
     (sort (concat (map (\<lambda>(b, e). [b..<e]) (concat sched))) = [0..<n])"

text \<open>The accumulators after the parallel loop (the contents of \<^verbatim>\<open>storage\<close>).\<close>

definition parallel_for :: "schedule \<Rightarrow> 'a \<Rightarrow> (nat \<Rightarrow> 'a \<Rightarrow> 'a) \<Rightarrow> 'a list" where
  "parallel_for sched init body =
     map (\<lambda>ranges. fold (\<lambda>(b, e) local. fold body [b..<e] local) ranges init) sched"

section \<open>The potential assembler (ipc.cpp)\<close>

definition compute_barrier_potential ::
  "collision_mesh \<Rightarrow> double matrix \<Rightarrow> constraints \<Rightarrow> double \<Rightarrow> schedule \<Rightarrow> error + double" where
  "compute_barrier_potential mesh V constraint_set dhat sched =
     (if rows V \<noteq> num_vertices mesh
      then Inl (AssertionFailed ''V.rows() == mesh.num_vertices()'')
      else if constraint_set = [] then Inr (Fin 0)
      else
        let E = edges mesh; F = faces mesh;
            storage = parallel_for sched (Fin 0)
              (\<lambda>i local_potential.
                 dadd local_potential (compute_potential (constraint_set ! i) V E F dhat))
        in Inr (fold (\<lambda>local_potential potential. dadd potential local_potential)
                  storage (Fin 0)))"

text \<open>\<^verbatim>\<open>grad += local_grad\<close> on dense vectors of one size.\<close>

definition vec_add :: "double list \<Rightarrow> double list \<Rightarrow> double list" where
  "vec_add a b = map2 dadd a b"

definition compute_barrier_potential_gradient ::
  "local_to_global \<Rightarrow> collision_mesh \<Rightarrow> double matrix \<Rightarrow> constraints \<Rightarrow> double \<Rightarrow> schedule
     \<Rightarrow> error + double list" where
  "compute_barrier_potential_gradient utils mesh V constraint_set dhat sched =
     (if rows V \<noteq> num_vertices mesh
      then Inl (AssertionFailed ''V.rows() == mesh.num_vertices()'')
      else if constraint_set = [] then Inr (replicate (matrix_size V) (Fin 0))
      else
        let E = edges mesh; F = faces mesh; dim = cols V;
            storage = parallel_for sched (replicate (matrix_size V) (Fin 0))
              (\<lambda>i local_grad.
                 local_gradient_to_global_gradient utils
                   (compute_potential_gradient (constraint_set ! i) V E F dhat)
                   (vertex_indices (constraint_set ! i) E F) dim local_grad)
        in Inr (fold (\<lambda>local_grad grad. vec_add grad local_grad)
                  storage (replicate (matrix_size V) (Fin 0))))"

definition compute_barrier_potential_hessian ::
  "local_to_global \<Rightarrow> collision_mesh \<Rightarrow> double matrix \<Rightarrow> constraints \<Rightarrow> double \<Rightarrow> bool
     \<Rightarrow> schedule \<Rightarrow> error + sparse_matrix" where
  "compute_barrier_potential_hessian utils mesh V constraint_set dhat project_hessian_to_psd sched =
     (if rows V \<noteq> num_vertices mesh
      then Inl (AssertionFailed ''V.rows() == mesh.num_vertices()'')
      else if constraint_set = [] then Inr (sm_zero (matrix_size V) (matrix_size V))
      else
        let E = edges mesh; F = faces mesh; dim = cols V;
            storage = parallel_for sched []
              (\<lambda>i local_hess_triplets.
                 local_hessian_to_global_triplets utils
                   (compute_potential_hessian (constraint_set ! i) V E F dhat
                      project_hessian_to_psd)
                   (vertex_indices (constraint_set ! i) E F) dim local_hess_triplets)
        in Inr (fold (\<lambda>local_hess_triplets hess.
                        sm_add hess
                          (setFromTriplets (sm_zero (matrix_size V) (matrix_size V))
                             local_hess_triplets))
                  storage (sm_zero (matrix_size V) (matrix_size V))))"



section \<open>The minimum distance (ipc.cpp)\<close>

definition compute_minimum_distance ::
  "collision_mesh \<Rightarrow> double matrix \<Rightarrow> constraints \<Rightarrow> schedule \<Rightarrow> error + double" where
  "compute_minimum_distance mesh V constraint_set sched =
     (if rows V \<noteq> num_vertices mesh
      then Inl (AssertionFailed ''V.rows() == mesh.num_vertices()'')
      else if constraint_set = [] then Inr PInf
      else
        let E = edges mesh; F = faces mesh;
            storage = parallel_for sched PInf
              (\<lambda>i local_min_dist.
                 let dist = compute_distance (constraint_set ! i) V E F in
                 if dlt dist local_min_dist then dist else local_min_dist)
        in Inr (fold (\<lambda>local_min_dist min_dist. std_min min_dist local_min_dist)
                  storage PInf))"

section \<open>The time-of-impact reducer (ipc.cpp)\<close>

text \<open>
  A candidate (its class is not among the sources) is its method
  \<^verbatim>\<open>ccd(V0, V1, E, F, toi, tmax, tolerance, max_iterations)\<close>: it receives the current value
  of the reference \<^verbatim>\<open>toi\<close> and returns the boolean with the value it leaves there.
  \<^verbatim>\<open>Candidates\<close> is indexed from \<open>0\<close> to \<open>size() - 1\<close>: a list.
\<close>

record collision_candidate =
  ccd :: "double matrix \<Rightarrow> double matrix \<Rightarrow> int matrix \<Rightarrow> int matrix \<Rightarrow> double \<Rightarrow> double
            \<Rightarrow> double \<Rightarrow> int \<Rightarrow> bool \<times> double"

type_synonym candidates = "collision_candidate list"

text \<open>
  The source is compiled with \<^verbatim>\<open>IPC_EARLIEST_TOI_USE_MUTEX\<close>: the workers share the
  variable \<^verbatim>\<open>earliest_toi\<close>. For the candidate \<open>i\<close> a worker does two things: it reads
  \<^verbatim>\<open>earliest_toi\<close> (passed by value as \<^verbatim>\<open>tmax\<close>) and calls the candidate's \<^verbatim>\<open>ccd\<close> with
  \<^verbatim>\<open>toi\<close> set to infinity (\<open>Call i\<close>); later, when the candidate collides, it takes the
  mutex, compares and assigns (\<open>Update i\<close>). An execution is an interleaving of these
  events; the read of the shared variable is taken to be atomic. The state holds the
  shared variable and, for every call made so far, the candidate's index, the \<^verbatim>\<open>tmax\<close> it
  was given and the pair it returned.
\<close>

datatype toi_event = Call nat | Update nat

type_synonym ccd_call = "nat \<times> double \<times> bool \<times> double"

record toi_state =
  earliest_toi :: double
  calls :: "ccd_call list"

definition toi_step ::
  "candidates \<Rightarrow> double matrix \<Rightarrow> double matrix \<Rightarrow> int matrix \<Rightarrow> int matrix \<Rightarrow> double \<Rightarrow> int
     \<Rightarrow> toi_event \<Rightarrow> toi_state \<Rightarrow> toi_state" where
  "toi_step candidates V0 V1 E F tolerance max_iterations ev st =
     (case ev of
        Call i \<Rightarrow>
          let tmax = earliest_toi st;
              (are_colliding, toi) =
                ccd (candidates ! i) V0 V1 E F PInf tmax tolerance max_iterations
          in st\<lparr>calls := calls st @ [(i, tmax, are_colliding, toi)]\<rparr>
      | Update i \<Rightarrow>
          (case map_of (calls st) i of
             None \<Rightarrow> st
           | Some (tmax, are_colliding, toi) \<Rightarrow>
               if are_colliding \<and> dlt toi (earliest_toi st)
               then st\<lparr>earliest_toi := toi\<rparr> else st))"

definition toi_run ::
  "candidates \<Rightarrow> double matrix \<Rightarrow> double matrix \<Rightarrow> int matrix \<Rightarrow> int matrix \<Rightarrow> double \<Rightarrow> int
     \<Rightarrow> toi_event list \<Rightarrow> toi_state" where
  "toi_run candidates V0 V1 E F tolerance max_iterations events =
     fold (toi_step candidates V0 V1 E F tolerance max_iterations) events
       \<lparr>earliest_toi = Fin 1, calls = []\<rparr>"

text \<open>
  An interleaving is valid for \<open>n\<close> candidates when every index below \<open>n\<close> is called once
  and updated once, the call first.
\<close>

fun calls_precede_updates :: "nat set \<Rightarrow> toi_event list \<Rightarrow> bool" where
  "calls_precede_updates called [] = True"
| "calls_precede_updates called (Call i # evs) = calls_precede_updates (insert i called) evs"
| "calls_precede_updates called (Update i # evs) =
     (i \<in> called \<and> calls_precede_updates called evs)"

fun called_indices :: "toi_event list \<Rightarrow> nat list" where
  "called_indices [] = []"
| "called_indices (Call i # evs) = i # called_indices evs"
| "called_indices (Update i # evs) = called_indices evs"

fun updated_indices :: "toi_event list \<Rightarrow> nat list" where
  "updated_indices [] = []"
| "updated_indices (Call i # evs) = updated_indices evs"
| "updated_indices (Update i # evs) = i # updated_indices evs"

definition valid_interleaving :: "nat \<Rightarrow> toi_event list \<Rightarrow> bool" where
  "valid_interleaving n events =
     (sort (called_indices events) = [0..<n] \<and> sort (updated_indices events) = [0..<n]
      \<and> calls_precede_updates {} events)"

definition compute_collision_free_stepsize ::
  "candidates \<Rightarrow> collision_mesh \<Rightarrow> double matrix \<Rightarrow> double matrix \<Rightarrow> double \<Rightarrow> int
     \<Rightarrow> toi_event list \<Rightarrow> error + double" where
  "compute_collision_free_stepsize candidates mesh V0 V1 tolerance max_iterations events =
     (if rows V0 \<noteq> num_vertices mesh
      then Inl (AssertionFailed ''V0.rows() == mesh.num_vertices()'')
      else if rows V1 \<noteq> num_vertices mesh
      then Inl (AssertionFailed ''V1.rows() == mesh.num_vertices()'')
      else if candidates = [] then Inr (Fin 1)
      else
        let E = edges mesh; F = faces mesh;
            earliest_toi =
              earliest_toi (toi_run candidates V0 V1 E F tolerance max_iterations events)
        in if \<not> (dle (Fin 0) earliest_toi \<and> dle earliest_toi (Fin 1))
           then Inl (AssertionFailed ''earliest_toi >= 0 && earliest_toi <= 1.0'')
           else Inr earliest_toi)"

section \<open>The distance between two lines (distance/line_line.hpp)\<close>

text \<open>
  A vector of three doubles with Eigen's difference, cross product, dot product and
  squared norm, every operation on doubles rounding.
\<close>

type_synonym vec3 = "double \<times> double \<times> double"

fun vec_sub :: "vec3 \<Rightarrow> vec3 \<Rightarrow> vec3" where
  "vec_sub (a0, a1, a2) (b0, b1, b2) = (fsub a0 b0, fsub a1 b1, fsub a2 b2)"

fun cross :: "vec3 \<Rightarrow> vec3 \<Rightarrow> vec3" where
  "cross (a0, a1, a2) (b0, b1, b2) =
     (fsub (fmul a1 b2) (fmul a2 b1),
      fsub (fmul a2 b0) (fmul a0 b2),
      fsub (fmul a0 b1) (fmul a1 b0))"

fun dot :: "vec3 \<Rightarrow> vec3 \<Rightarrow> double" where
  "dot (a0, a1, a2) (b0, b1, b2) = fadd (fadd (fmul a0 b0) (fmul a1 b1)) (fmul a2 b2)"

definition squaredNorm :: "vec3 \<Rightarrow> double" where
  "squaredNorm a = dot a a"

definition line_line_distance :: "vec3 \<Rightarrow> vec3 \<Rightarrow> vec3 \<Rightarrow> vec3 \<Rightarrow> double" where
  "line_line_distance ea0 ea1 eb0 eb1 =
     (let normal = cross (vec_sub ea1 ea0) (vec_sub eb1 eb0);
          line_to_line = dot (vec_sub eb0 ea0) normal
      in fdiv (fmul line_to_line line_to_line) (squaredNorm normal))"

section \<open>The self-intersection detector (ipc.cpp)\<close>

text \<open>
  Reading a coefficient or a row of an Eigen matrix outside its extent fails an assertion
  of Eigen's. \<^verbatim>\<open>M(i, j)\<close> and \<^verbatim>\<open>M.row(i)\<close>, the row index being a signed integer:
\<close>

definition mat_at :: "'a matrix \<Rightarrow> int \<Rightarrow> nat \<Rightarrow> error + 'a" where
  "mat_at M i j =
     (if 0 \<le> i \<and> nat i < rows M \<and> j < cols M then Inr (coeff M (nat i) j)
      else Inl (AssertionFailed ''index out of range''))"

definition mat_row :: "'a matrix \<Rightarrow> int \<Rightarrow> error + 'a list" where
  "mat_row M i =
     (if 0 \<le> i \<and> nat i < rows M then Inr (map (coeff M (nat i)) [0..<cols M])
      else Inl (AssertionFailed ''index out of range''))"

text \<open>Sequencing of computations that may fail.\<close>

definition and_then :: "error + 'a \<Rightarrow> ('a \<Rightarrow> error + 'b) \<Rightarrow> error + 'b" where
  "and_then r f = (case r of Inl e \<Rightarrow> Inl e | Inr x \<Rightarrow> f x)"

text \<open>
  The collaborators of the detector, none of them among the sources, are parameters: the
  length of the diagonal of the bounding box; the broad phase made for a method, given the
  collision filter and built on \<open>V\<close>, \<open>E\<close>, \<open>F\<close> with an inflation radius, as the list of
  edge-edge candidates \<open>(edge0_index, edge1_index)\<close> and the list of edge-face candidates
  \<open>(edge_index, face_index)\<close> it detects; and the two exact predicates.
\<close>

record 'method intersection_tools =
  world_bbox_diagonal_length :: "double matrix \<Rightarrow> double"
  detect_edge_edge_candidates ::
    "'method \<Rightarrow> (nat \<Rightarrow> nat \<Rightarrow> bool) \<Rightarrow> double matrix \<Rightarrow> int matrix \<Rightarrow> int matrix \<Rightarrow> double
       \<Rightarrow> (int \<times> int) list"
  detect_edge_face_candidates ::
    "'method \<Rightarrow> (nat \<Rightarrow> nat \<Rightarrow> bool) \<Rightarrow> double matrix \<Rightarrow> int matrix \<Rightarrow> int matrix \<Rightarrow> double
       \<Rightarrow> (int \<times> int) list"
  segment_segment_intersect ::
    "double list \<Rightarrow> double list \<Rightarrow> double list \<Rightarrow> double list \<Rightarrow> bool"
  is_edge_intersecting_triangle ::
    "double list \<Rightarrow> double list \<Rightarrow> double list \<Rightarrow> double list \<Rightarrow> double list \<Rightarrow> bool"

text \<open>The condition of the \<^verbatim>\<open>if\<close> in the two loops, for one candidate.\<close>

definition edge_edge_test ::
  "'method intersection_tools \<Rightarrow> double matrix \<Rightarrow> int matrix \<Rightarrow> int \<times> int \<Rightarrow> error + bool" where
  "edge_edge_test tools V E ee_candidate =
     (case ee_candidate of (edge0_index, edge1_index) \<Rightarrow>
        and_then (mat_at E edge0_index 0) (\<lambda>a0.
        and_then (mat_row V a0) (\<lambda>p0.
        and_then (mat_at E edge0_index 1) (\<lambda>a1.
        and_then (mat_row V a1) (\<lambda>p1.
        and_then (mat_at E edge1_index 0) (\<lambda>b0.
        and_then (mat_row V b0) (\<lambda>q0.
        and_then (mat_at E edge1_index 1) (\<lambda>b1.
        and_then (mat_row V b1) (\<lambda>q1.
          Inr (segment_segment_intersect tools
                 (take 2 p0) (take 2 p1) (take 2 q0) (take 2 q1)))))))))))"

definition edge_face_test ::
  "'method intersection_tools \<Rightarrow> double matrix \<Rightarrow> int matrix \<Rightarrow> int matrix \<Rightarrow> int \<times> int
     \<Rightarrow> error + bool" where
  "edge_face_test tools V E F ef_candidate =
     (case ef_candidate of (edge_index, face_index) \<Rightarrow>
        and_then (mat_at E edge_index 0) (\<lambda>a0.
        and_then (mat_row V a0) (\<lambda>e0.
        and_then (mat_at E edge_index 1) (\<lambda>a1.
        and_then (mat_row V a1) (\<lambda>e1.
        and_then (mat_at F face_index 0) (\<lambda>f0.
        and_then (mat_row V f0) (\<lambda>t0.
        and_then (mat_at F face_index 1) (\<lambda>f1.
        and_then (mat_row V f1) (\<lambda>t1.
        and_then (mat_at F face_index 2) (\<lambda>f2.
        and_then (mat_row V f2) (\<lambda>t2.
          Inr (is_edge_intersecting_triangle tools e0 e1 t0 t1 t2))))))))))))"

text \<open>
  A loop \<^verbatim>\<open>for (c : candidates) { if (test(c)) return true; }\<close> followed by
  \<^verbatim>\<open>return false\<close>.
\<close>

fun first_intersection :: "('c \<Rightarrow> error + bool) \<Rightarrow> 'c list \<Rightarrow> error + bool" where
  "first_intersection test [] = Inr False"
| "first_intersection test (c # cs) =
     (case test c of
        Inl e \<Rightarrow> Inl e
      | Inr intersecting \<Rightarrow> if intersecting then Inr True else first_intersection test cs)"

definition has_intersections ::
  "'method intersection_tools \<Rightarrow> collision_mesh \<Rightarrow> double matrix \<Rightarrow> 'method \<Rightarrow> error + bool" where
  "has_intersections tools mesh V method =
     (if rows V \<noteq> num_vertices mesh
      then Inl (AssertionFailed ''V.rows() == mesh.num_vertices()'')
      else
        let E = edges mesh; F = faces mesh;
            conservative_inflation_radius =
              fmul (fl (1 / 100)) (world_bbox_diagonal_length tools V)
        in if cols V = 2 then
             first_intersection (edge_edge_test tools V E)
               (detect_edge_edge_candidates tools method (can_collide mesh) V E F
                  conservative_inflation_radius)
           else if cols V \<noteq> 3 then Inl (AssertionFailed ''V.cols() == 3'')
           else
             first_intersection (edge_face_test tools V E F)
               (detect_edge_face_candidates tools method (can_collide mesh) V E F
                  conservative_inflation_radius))"

section \<open>Notions used in the statements\<close>

text \<open>
  The sequential reading of the assembler's contract: the sum, over the constraints in
  their order, of each constraint's local barrier contribution.
\<close>

definition sum_of_barrier_contributions ::
  "collision_mesh \<Rightarrow> double matrix \<Rightarrow> constraints \<Rightarrow> double \<Rightarrow> double" where
  "sum_of_barrier_contributions mesh V constraint_set dhat =
     fold (\<lambda>constraint potential.
             dadd potential (compute_potential constraint V (edges mesh) (faces mesh) dhat))
       constraint_set (Fin 0)"

text \<open>
  One step of a running minimum, \<^verbatim>\<open>if (dist < min) min = dist\<close>, used to reason about the
  loops of \<open>compute_minimum_distance\<close>.
\<close>

definition min_step :: "double \<Rightarrow> double \<Rightarrow> double" where
  "min_step d m = (if dlt d m then d else m)"


text \<open>
  The time of impact a candidate reported in an execution (none when it reported no
  collision), and the minimum of \<open>1\<close> and a list of times of impact.
\<close>

definition reported_toi :: "ccd_call list \<Rightarrow> nat \<Rightarrow> double list" where
  "reported_toi cs i =
     (case map_of cs i of
        None \<Rightarrow> []
      | Some (tmax, are_colliding, toi) \<Rightarrow> if are_colliding then [toi] else [])"

definition minimum_toi :: "double list \<Rightarrow> double" where
  "minimum_toi ts = fold min_step ts (Fin 1)"

text \<open>
  Used to reason about the reducer: a value that is not NaN and does not exceed \<open>1\<close>, and a
  recorded call that holds what the candidate's \<^verbatim>\<open>ccd\<close> returns for the recorded \<^verbatim>\<open>tmax\<close>,
  itself at most \<open>1\<close>.
\<close>

definition at_most_one :: "double \<Rightarrow> bool" where
  "at_most_one t = (t \<noteq> NaN \<and> \<not> dlt (Fin 1) t)"

definition call_ok ::
  "candidates \<Rightarrow> double matrix \<Rightarrow> double matrix \<Rightarrow> int matrix \<Rightarrow> int matrix \<Rightarrow> double \<Rightarrow> int
     \<Rightarrow> ccd_call \<Rightarrow> bool" where
  "call_ok cands V0 V1 E F tol maxit c =
     (case c of (i, tmax, are_colliding, toi) \<Rightarrow>
        ccd (cands ! i) V0 V1 E F PInf tmax tol maxit = (are_colliding, toi) \<and> dle tmax (Fin 1))"

text \<open>
  Points and vectors with real coordinates, to state what the function computes on finite
  input: the usual operations, the embedding into vectors of doubles, the point at
  parameter \<open>s\<close> of the line through two points, and the squared distance of two points.
\<close>

type_synonym real3 = "real \<times> real \<times> real"

fun fin3 :: "real3 \<Rightarrow> vec3" where
  "fin3 (x, y, z) = (Fin x, Fin y, Fin z)"

fun real_sub :: "real3 \<Rightarrow> real3 \<Rightarrow> real3" where
  "real_sub (a0, a1, a2) (b0, b1, b2) = (a0 - b0, a1 - b1, a2 - b2)"

fun real_add :: "real3 \<Rightarrow> real3 \<Rightarrow> real3" where
  "real_add (a0, a1, a2) (b0, b1, b2) = (a0 + b0, a1 + b1, a2 + b2)"

fun real_scale :: "real \<Rightarrow> real3 \<Rightarrow> real3" where
  "real_scale k (a0, a1, a2) = (k * a0, k * a1, k * a2)"

fun real_cross :: "real3 \<Rightarrow> real3 \<Rightarrow> real3" where
  "real_cross (a0, a1, a2) (b0, b1, b2) =
     (a1 * b2 - a2 * b1, a2 * b0 - a0 * b2, a0 * b1 - a1 * b0)"

fun real_dot :: "real3 \<Rightarrow> real3 \<Rightarrow> real" where
  "real_dot (a0, a1, a2) (b0, b1, b2) = a0 * b0 + a1 * b1 + a2 * b2"

definition line_point :: "real3 \<Rightarrow> real3 \<Rightarrow> real \<Rightarrow> real3" where
  "line_point p0 p1 s = real_add p0 (real_scale s (real_sub p1 p0))"

definition squared_distance :: "real3 \<Rightarrow> real3 \<Rightarrow> real" where
  "squared_distance p q = real_dot (real_sub p q) (real_sub p q)"

text \<open>
  The evaluation of \<open>line_line_distance\<close> on four points with finite coordinates rounds
  nowhere before the division: the three differences, the cross product, the dot product,
  its square and the squared norm are computed without error.
\<close>

definition rounds_nowhere :: "real3 \<Rightarrow> real3 \<Rightarrow> real3 \<Rightarrow> real3 \<Rightarrow> bool" where
  "rounds_nowhere ea0 ea1 eb0 eb1 =
     (let u = real_sub ea1 ea0; v = real_sub eb1 eb0; w = real_sub eb0 ea0;
          n = real_cross u v; l = real_dot w n
      in vec_sub (fin3 ea1) (fin3 ea0) = fin3 u
       \<and> vec_sub (fin3 eb1) (fin3 eb0) = fin3 v
       \<and> vec_sub (fin3 eb0) (fin3 ea0) = fin3 w
       \<and> cross (fin3 u) (fin3 v) = fin3 n
       \<and> dot (fin3 w) (fin3 n) = Fin l
       \<and> fmul (Fin l) (Fin l) = Fin (l * l)
       \<and> squaredNorm (fin3 n) = Fin (real_dot n n))"

text \<open>A real number that is an integer of magnitude at most \<open>B\<close>.\<close>

definition integer_within :: "int \<Rightarrow> real \<Rightarrow> bool" where
  "integer_within B x = (\<exists>n. x = of_int n \<and> \<bar>n\<bar> \<le> B)"

text \<open>
  What the detector reads for a candidate: the row of \<open>V\<close> named by entry \<open>(e, k)\<close> of an
  index matrix, \<^verbatim>\<open>V.row(M(e, k))\<close>; and the condition under which the first \<open>n\<close> entries of
  row \<open>e\<close> of the index matrix exist and name rows of \<open>V\<close>.
\<close>

definition vertex_row :: "double matrix \<Rightarrow> int matrix \<Rightarrow> int \<Rightarrow> nat \<Rightarrow> double list" where
  "vertex_row V M e k = map (coeff V (nat (coeff M (nat e) k))) [0..<cols V]"

definition entries_in_range :: "double matrix \<Rightarrow> int matrix \<Rightarrow> int \<Rightarrow> nat \<Rightarrow> bool" where
  "entries_in_range V M e n =
     (0 \<le> e \<and> nat e < rows M \<and> n \<le> cols M
      \<and> (\<forall>k\<in>set [0..<n]. 0 \<le> coeff M (nat e) k \<and> nat (coeff M (nat e) k) < rows V))"

section \<open>Example data\<close>

text \<open>
  A mesh of \<open>n\<close> vertices without edges or faces, a configuration of \<open>n\<close> vertices at
  the origin, and a constraint on vertex \<open>1\<close> in two dimensions, of constant potential,
  distance and weight.
\<close>

definition example_mesh :: "nat \<Rightarrow> collision_mesh" where
  "example_mesh n =
     \<lparr>num_vertices = n,
      edges = \<lparr>rows = 0, cols = 2, coeff = \<lambda>i j. 0\<rparr>,
      faces = \<lparr>rows = 0, cols = 3, coeff = \<lambda>i j. 0\<rparr>,
      can_collide = \<lambda>i j. True\<rparr>"

definition example_vertices :: "nat \<Rightarrow> nat \<Rightarrow> double matrix" where
  "example_vertices n d = \<lparr>rows = n, cols = d, coeff = \<lambda>i j. Fin 0\<rparr>"

definition example_constraint :: "double \<Rightarrow> double \<Rightarrow> double \<Rightarrow> collision_constraint" where
  "example_constraint potential distance w =
     \<lparr>compute_potential = \<lambda>V E F dhat. potential,
      compute_potential_gradient = \<lambda>V E F dhat. [Fin 2, Fin 4],
      compute_potential_hessian =
        \<lambda>V E F dhat project. \<lparr>rows = 2, cols = 2, coeff = \<lambda>i j. Fin 1\<rparr>,
      vertex_indices = \<lambda>E F. [1],
      compute_distance = \<lambda>V E F. distance,
      weight = w,
      weight_gradient = \<lparr>sv_size = 4, sv_entries = [(0, Fin 3)]\<rparr>\<rparr>"

text \<open>
  Scatter utilities for the examples: each local block of \<open>d\<close> values goes to the global
  offset \<open>d * vertex index\<close>; the dense version adds into the destination, the sparse
  version stores the entries, the Hessian version appends triplets.
\<close>

definition example_utils :: local_to_global where
  "example_utils =
     \<lparr>local_gradient_to_global_gradient = (\<lambda>local_grad ids d grad.
        fold (\<lambda>(k, id) g.
                fold (\<lambda>c g. g[d * nat id + c := dadd (g ! (d * nat id + c)) (local_grad ! (d * k + c))])
                  [0..<d] g)
          (enumerate 0 ids) grad),
      local_gradient_to_global_sparse_gradient = (\<lambda>local_grad ids d grad.
        grad\<lparr>sv_entries := sv_entries grad @
          concat (map (\<lambda>(k, id). map (\<lambda>c. (d * nat id + c, local_grad ! (d * k + c))) [0..<d])
                    (enumerate 0 ids))\<rparr>),
      local_hessian_to_global_triplets = (\<lambda>local_hessian ids d triplets.
        triplets @
          concat (map (\<lambda>(k, id). concat (map (\<lambda>(l, jd).
              concat (map (\<lambda>a. map (\<lambda>b.
                  (d * nat id + a, d * nat jd + b, coeff local_hessian (d * k + a) (d * l + b)))
                [0..<d]) [0..<d]))
            (enumerate 0 ids))) (enumerate 0 ids)))\<rparr>"

text \<open>
  A candidate that collides at a fixed time, when that time is within \<^verbatim>\<open>tmax\<close>, or never.
\<close>

definition example_candidate :: "double option \<Rightarrow> collision_candidate" where
  "example_candidate impact =
     \<lparr>ccd = \<lambda>V0 V1 E F toi tmax tolerance max_iterations.
        (case impact of
           None \<Rightarrow> (False, toi)
         | Some t \<Rightarrow> if dle t tmax then (True, t) else (False, toi))\<rparr>"

text \<open>
  A matrix given by its rows; the number of a double; a test that two segments of the
  plane cross properly; a test that a segment crosses the plane \<open>z = 0\<close> inside the
  triangle \<open>(0,0,0)\<close>, \<open>(1,0,0)\<close>, \<open>(0,1,0)\<close>; and tools that detect given candidates and
  test an edge against that triangle only.
\<close>

definition example_matrix :: "nat \<Rightarrow> 'a list list \<Rightarrow> 'a matrix" where
  "example_matrix c rs = \<lparr>rows = length rs, cols = c, coeff = \<lambda>i j. rs ! i ! j\<rparr>"

fun the_fin :: "double \<Rightarrow> real" where
  "the_fin (Fin x) = x"
| "the_fin d = 0"

fun example_orient :: "double list \<Rightarrow> double list \<Rightarrow> double list \<Rightarrow> real" where
  "example_orient [a0, a1] [b0, b1] [c0, c1] =
     (the_fin b0 - the_fin a0) * (the_fin c1 - the_fin a1)
       - (the_fin b1 - the_fin a1) * (the_fin c0 - the_fin a0)"
| "example_orient a b c = 0"

definition example_segments_cross ::
  "double list \<Rightarrow> double list \<Rightarrow> double list \<Rightarrow> double list \<Rightarrow> bool" where
  "example_segments_cross a b c d =
     (example_orient a b c * example_orient a b d < 0
      \<and> example_orient c d a * example_orient c d b < 0)"

fun example_pierces :: "double list \<Rightarrow> double list \<Rightarrow> bool" where
  "example_pierces [x0, y0, z0] [x1, y1, z1] =
     (the_fin z0 * the_fin z1 < 0 \<and>
      (let t = the_fin z0 / (the_fin z0 - the_fin z1);
           x = the_fin x0 + t * (the_fin x1 - the_fin x0);
           y = the_fin y0 + t * (the_fin y1 - the_fin y0)
       in 0 < x \<and> 0 < y \<and> x + y < 1))"
| "example_pierces e0 e1 = False"

definition example_tools :: "(int \<times> int) list \<Rightarrow> (int \<times> int) list \<Rightarrow> unit intersection_tools" where
  "example_tools ee ef =
     \<lparr>world_bbox_diagonal_length = \<lambda>V. Fin 1,
      detect_edge_edge_candidates = \<lambda>method filter V E F radius. ee,
      detect_edge_face_candidates = \<lambda>method filter V E F radius. ef,
      segment_segment_intersect = example_segments_cross,
      is_edge_intersecting_triangle = \<lambda>e0 e1 t0 t1 t2.
        t0 = [Fin 0, Fin 0, Fin 0] \<and> t1 = [Fin 1, Fin 0, Fin 0] \<and> t2 = [Fin 0, Fin 1, Fin 0]
        \<and> example_pierces e0 e1\<rparr>"

definition example_mesh_2D :: collision_mesh where
  "example_mesh_2D =
     \<lparr>num_vertices = 6,
      edges = example_matrix 2 [[0, 1], [4, 5], [2, 3]],
      faces = example_matrix 3 [],
      can_collide = \<lambda>i j. True\<rparr>"

definition example_vertices_2D :: "double matrix" where
  "example_vertices_2D =
     example_matrix 2 [[Fin 0, Fin 0], [Fin 1, Fin 1], [Fin 0, Fin 1], [Fin 1, Fin 0],
                       [Fin 2, Fin 0], [Fin 3, Fin 0]]"

text \<open>
  In the plane: the diagonals of the unit square, which cross, and a segment away from
  them. In space: the triangle above, an edge that goes through it and an edge that
  passes beside it.
\<close>

definition example_mesh_3D :: collision_mesh where
  "example_mesh_3D =
     \<lparr>num_vertices = 7,
      edges = example_matrix 2 [[3, 4], [5, 6]],
      faces = example_matrix 3 [[0, 1, 2]],
      can_collide = \<lambda>i j. True\<rparr>"

definition example_vertices_3D :: "double matrix" where
  "example_vertices_3D =
     example_matrix 3 [[Fin 0, Fin 0, Fin 0], [Fin 1, Fin 0, Fin 0], [Fin 0, Fin 1, Fin 0],
                       [Fin (1/4), Fin (1/4), Fin (- 1)], [Fin (1/4), Fin (1/4), Fin 1],
                       [Fin (3/4), Fin (3/4), Fin (- 1)], [Fin (3/4), Fin (3/4), Fin 1]]"

section \<open>Properties of rounding\<close>

lemma round_half_even_of_int: "round_half_even (of_int k) = k"
  by (simp add: round_half_even_def)

text \<open>
  The value of \<open>fl x\<close> from the exponent \<open>e\<close> of the binade of \<open>x\<close> (or \<open>e = -1074\<close> for a
  subnormal) and the rounded significand \<open>m\<close>.
\<close>

lemma fl_eval:
  assumes "x \<noteq> 0"
    and "2 powr of_int (e + 52) \<le> \<bar>x\<bar> \<or> e = - 1074"
    and "\<bar>x\<bar> < 2 powr of_int (e + 53)"
    and "- 1074 \<le> e"
    and "round_half_even (x / 2 powr of_int e) = m"
    and "\<bar>of_int m * 2 powr of_int e\<bar> < (2::real) ^ 1024"
  shows "fl x = Fin (of_int m * 2 powr of_int e)"
proof -
  have pos: "0 < \<bar>x\<bar>" using assms(1) by simp
  have "max (\<lfloor>log 2 \<bar>x\<bar>\<rfloor> - 52) (- 1074) = e"
  proof (cases "2 powr of_int (e + 52) \<le> \<bar>x\<bar>")
    case True
    have "\<lfloor>log 2 \<bar>x\<bar>\<rfloor> = e + 52"
      using pos True assms(3) by (simp add: floor_log_eq_powr_iff add.commute add.assoc)
    then show ?thesis using assms(4) by simp
  next
    case False
    with assms(2) have e: "e = - 1074" by simp
    have "log 2 \<bar>x\<bar> < of_int (e + 53)"
      using pos assms(3) by (simp add: log_less_iff del: of_int_add)
    then have "\<lfloor>log 2 \<bar>x\<bar>\<rfloor> < e + 53"
      by (simp only: floor_less_iff)
    then have "\<lfloor>log 2 \<bar>x\<bar>\<rfloor> - 52 \<le> - 1074"
      using e by linarith
    then show ?thesis using e by (simp only: max_absorb2)
  qed
  then show ?thesis
    using assms(1,5,6) by (simp add: fl_def Let_def)
qed

text \<open>Every \<open>m * 2\<^sup>e\<close> with \<open>\<bar>m\<bar> < 2\<^sup>5\<^sup>3\<close> and \<open>-1074 \<le> e \<le> 971\<close> is a double: \<open>fl\<close> leaves it.\<close>

lemma fl_exact:
  assumes "\<bar>m\<bar> < 2 ^ 53" and "- 1074 \<le> e" and "e \<le> 971"
  shows "fl (of_int m * 2 powr of_int e) = Fin (of_int m * 2 powr of_int e)"
proof (cases "m = 0")
  case True
  then show ?thesis by (simp add: fl_def)
next
  case False
  define x :: real where "x = of_int m * 2 powr of_int e"
  define e' where "e' = max (\<lfloor>log 2 \<bar>x\<bar>\<rfloor> - 52) (- 1074)"
  have x0: "x \<noteq> 0" using False by (simp add: x_def)
  have am: "0 < \<bar>real_of_int m\<bar>" using False by simp
  have absx: "\<bar>x\<bar> = \<bar>real_of_int m\<bar> * 2 powr of_int e"
    by (simp add: x_def abs_mult)
  have m53: "\<bar>real_of_int m\<bar> < 2 ^ 53"
  proof -
    have "real_of_int \<bar>m\<bar> < real_of_int (2 ^ 53)"
      using assms(1) by (simp only: of_int_less_iff)
    then show ?thesis by simp
  qed
  then have "\<bar>real_of_int m\<bar> < 2 powr 53" by simp
  then have lm: "log 2 \<bar>real_of_int m\<bar> < 53"
    using am by (simp add: log_less_iff)
  have "log 2 \<bar>x\<bar> = log 2 \<bar>real_of_int m\<bar> + of_int e"
    unfolding absx using am by (simp add: log_mult log_powr)
  then have "log 2 \<bar>x\<bar> < of_int (e + 53)"
    using lm by simp
  then have "\<lfloor>log 2 \<bar>x\<bar>\<rfloor> < e + 53"
    by (simp only: floor_less_iff)
  then have le: "e' \<le> e"
    using assms(2) by (simp add: e'_def)
  define k where "k = nat (e - e')"
  have ek: "e = e' + int k" using le by (simp add: k_def)
  have p: "(2::real) powr of_int e = 2 ^ k * 2 powr of_int e'"
    unfolding ek by (simp add: powr_add powr_realpow)
  have q: "x / 2 powr of_int e' = of_int (m * 2 ^ k)"
    by (simp add: x_def p)
  have r: "round_half_even (x / 2 powr of_int e') = m * 2 ^ k"
    unfolding q by (rule round_half_even_of_int)
  have y: "of_int (m * 2 ^ k) * 2 powr of_int e' = x"
    by (simp add: x_def p)
  have "(2::real) powr of_int e \<le> 2 powr of_int 971"
    using assms(3) by (intro powr_mono) simp_all
  then have "(2::real) powr of_int e \<le> 2 ^ 971"
    by simp
  moreover have "0 < (2::real) powr of_int e"
    by simp
  ultimately have "\<bar>real_of_int m\<bar> * 2 powr of_int e < 2 ^ 53 * 2 ^ 971"
    using m53 by (intro mult_less_le_imp_less) simp_all
  then have b: "\<bar>x\<bar> < 2 ^ 1024"
    unfolding absx by simp
  have "fl x =
      (if (2::real) ^ 1024 \<le> \<bar>of_int (round_half_even (x / 2 powr of_int e')) * 2 powr of_int e'\<bar>
       then (if x < 0 then NInf else PInf)
       else Fin (of_int (round_half_even (x / 2 powr of_int e')) * 2 powr of_int e'))"
    using x0 by (simp add: fl_def Let_def e'_def)
  then have "fl x = (if (2::real) ^ 1024 \<le> \<bar>x\<bar> then (if x < 0 then NInf else PInf) else Fin x)"
    by (simp only: r y)
  then have "fl x = Fin x"
    using b by simp
  then show ?thesis by (simp add: x_def)
qed

lemma fl_of_int: "\<bar>n\<bar> < 2 ^ 53 \<Longrightarrow> fl (of_int n) = Fin (of_int n)"
  using fl_exact [of n 0] by simp

lemma fl_dyadic:
  assumes "\<bar>m\<bar> < 2 ^ 53" and "k \<le> 1074"
  shows "fl (of_int m / 2 ^ k) = Fin (of_int m / 2 ^ k)"
proof -
  have "2 powr of_int (- int k) = 1 / (2::real) ^ k"
    by (simp add: powr_minus powr_realpow inverse_eq_divide)
  then show ?thesis
    using fl_exact [of m "- int k"] assms by simp
qed

text \<open>Some doubles, for the examples.\<close>

lemma fl_small_numbers:
  "fl 0 = Fin 0" "fl 1 = Fin 1" "fl 3 = Fin 3" "fl 4 = Fin 4" "fl 16 = Fin 16"
  "fl (1 / 2) = Fin (1 / 2)" "fl (1 / 4) = Fin (1 / 4)" "fl (1 / 8) = Fin (1 / 8)"
  using fl_of_int [of 1] fl_of_int [of 3] fl_of_int [of 4] fl_of_int [of 16]
    fl_dyadic [of 1 1] fl_dyadic [of 1 2] fl_dyadic [of 1 3]
  by (simp_all add: fl_def)

text \<open>
  The value of the literal \<^verbatim>\<open>1e-6\<close>: \<open>4722366482869645 * 2\<^sup>-\<^sup>7\<^sup>2\<close>, a little below \<open>10\<^sup>-\<^sup>6\<close>.
\<close>

lemma SMALL_TOI_value: "SMALL_TOI = Fin (4722366482869645 / 2 ^ 72)"
  unfolding SMALL_TOI_def
  using fl_eval [of "1 / 1000000" "- 72" 4722366482869645]
  by (simp add: round_half_even_def powr_neg_numeral)

lemma SMALL_TOI_below: "dlt SMALL_TOI (Fin (1 / 1000000))"
  by (simp add: SMALL_TOI_value)

section \<open>Properties of the controller\<close>

text \<open>
  C3. With an initial distance equal to zero, \<open>ccd_strategy\<close> makes no oracle call and
  returns normally (no assertion failure) the boolean true with \<open>toi = 0\<close>, whatever the
  oracle, the rescaling factor and the incoming \<open>toi\<close>.
\<close>

theorem ccd_strategy_zero_initial_distance:
  "ccd_strategy rootfinder (Fin 0) conservative_rescaling toi = ([], Inr (True, Fin 0))"
  by (simp add: ccd_strategy_def deq_def)

text \<open>
  C1 (as stated) fails: the rescaling \<^verbatim>\<open>toi *= conservative_rescaling\<close> is guarded by the
  second query's answer. Here the first query reports an impact at \<open>toi = 0\<close>, the second
  query reports no impact and leaves \<open>1/2\<close> in \<open>toi\<close>: the value returned is \<open>1/2\<close>, not
  \<open>1/2 * 1/2\<close>.
\<close>

theorem ccd_strategy_requery_not_rescaled:
  "ccd_strategy (\<lambda>min_distance no_zero_toi toi.
       if no_zero_toi then (False, Fin (1/2)) else (True, Fin 0)) (Fin 1) (Fin (1/2)) PInf
     = ([(Fin (1/2), False), (Fin 0, True)], Inr (True, Fin (1/2)))
   \<and> fmul (Fin (1/2)) (Fin (1/2)) \<noteq> Fin (1/2)"
  by (simp add: ccd_strategy_def deq_def dne_def fsub_def fmul_def SMALL_TOI_value
      fl_small_numbers Let_def)

text \<open>
  The two assertions of the controller depend on the rounding. With a rescaling factor of
  \<open>2\<^sup>-\<^sup>6\<^sup>0\<close> the difference \<^verbatim>\<open>1.0 - conservative_rescaling\<close> rounds to \<open>1\<close>, the margin is the
  initial distance itself and the first assertion fails before any query. With a second
  query that leaves the least positive double \<open>2\<^sup>-\<^sup>1\<^sup>0\<^sup>7\<^sup>4\<close> in \<open>toi\<close> and a factor of \<open>1/2\<close> the
  product rounds to zero and the second assertion fails.
\<close>

lemma ccd_strategy_margin_rounds_to_distance:
  "ccd_strategy rootfinder (Fin 1) (Fin (1 / 2 ^ 60)) toi
     = ([], Inl (AssertionFailed ''min_distance < initial_distance''))"
proof -
  have "fl (1 - 1 / 2 ^ 60) = Fin (of_int (2 ^ 53) * 2 powr of_int (- 53))"
    by (rule fl_eval) (simp_all add: round_half_even_def powr_neg_numeral)
  then have "fsub (Fin 1) (Fin (1 / 2 ^ 60)) = Fin 1"
    by (simp add: fsub_def powr_neg_numeral)
  then show ?thesis
    by (simp add: ccd_strategy_def deq_def fmul_def fl_small_numbers Let_def)
qed

lemma ccd_strategy_rescaled_toi_underflows:
  "ccd_strategy (\<lambda>min_distance no_zero_toi toi.
       if no_zero_toi then (True, Fin (1 / 2 ^ 1074)) else (True, Fin 0)) (Fin 1) (Fin (1/2)) PInf
     = ([(Fin (1/2), False), (Fin 0, True)], Inl (AssertionFailed ''toi != 0''))"
proof -
  have "fl (1 / 2 ^ 1075) = Fin (of_int 0 * 2 powr of_int (- 1074))"
    by (rule fl_eval) (simp_all add: round_half_even_def powr_neg_numeral)
  then have "fmul (Fin (1 / 2 ^ 1074)) (Fin (1/2)) = Fin 0"
    by (simp add: fmul_def)
  then show ?thesis
    by (simp add: ccd_strategy_def deq_def dne_def fsub_def fmul_def SMALL_TOI_value
        fl_small_numbers Let_def)
qed

text \<open>
  C1 (amended). For a positive initial distance whose computed margin
  \<open>(1 - r) * initial_distance\<close> is below it (the first assertion holds), when the first
  oracle query, made with that margin and \<open>no_zero_toi = false\<close>, reports an impact with a
  \<open>toi\<close> below \<open>SMALL_TOI\<close>, the controller makes exactly one more query, with
  \<open>min_distance = 0\<close> and \<open>no_zero_toi = true\<close>. When that query reports an impact, its
  \<open>toi\<close> is multiplied by \<open>r\<close>, the product rounded; the controller returns it with the
  boolean true, unless it is zero, where the second assertion fails.
\<close>

theorem ccd_strategy_small_toi_requery:
  assumes "dlt (Fin 0) initial_distance"
    and "dlt (fmul (fsub (Fin 1) r) initial_distance) initial_distance"
    and "rootfinder (fmul (fsub (Fin 1) r) initial_distance) False toi = (True, toi_first)"
    and "dlt toi_first SMALL_TOI"
    and "rootfinder (Fin 0) True toi_first = (is_impacting', toi_second)"
  shows "fst (ccd_strategy rootfinder initial_distance r toi)
           = [(fmul (fsub (Fin 1) r) initial_distance, False), (Fin 0, True)]
    \<and> (is_impacting' \<longrightarrow>
         snd (ccd_strategy rootfinder initial_distance r toi) =
           (if dne (fmul toi_second r) (Fin 0) then Inr (True, fmul toi_second r)
            else Inl (AssertionFailed ''toi != 0'')))"
proof -
  have pos: "\<not> deq initial_distance (Fin 0)"
    using assms(1) by (cases initial_distance) (simp_all add: deq_def)
  show ?thesis
    using pos assms(2,3,4,5)
    by (cases is_impacting') (simp_all add: ccd_strategy_def Let_def)
qed

theorem ccd_strategy_small_toi_requery_witness:
  "dlt (Fin 0) (Fin 1)
   \<and> dlt (fmul (fsub (Fin 1) (Fin (1/2))) (Fin 1)) (Fin 1)
   \<and> dlt (Fin 0) SMALL_TOI
   \<and> fst (ccd_strategy (\<lambda>min_distance no_zero_toi toi.
          if no_zero_toi then (True, Fin (1/4)) else (True, Fin 0)) (Fin 1) (Fin (1/2)) PInf)
     = [(Fin (1/2), False), (Fin 0, True)]
   \<and> snd (ccd_strategy (\<lambda>min_distance no_zero_toi toi.
          if no_zero_toi then (True, Fin (1/4)) else (True, Fin 0)) (Fin 1) (Fin (1/2)) PInf)
     = Inr (True, Fin (1/8))"
  using ccd_strategy_small_toi_requery [where initial_distance = "Fin 1" and r = "Fin (1/2)"
      and toi = PInf and toi_first = "Fin 0" and toi_second = "Fin (1/4)"
      and is_impacting' = True
      and rootfinder = "\<lambda>min_distance no_zero_toi toi.
          if no_zero_toi then (True, Fin (1/4)) else (True, Fin 0)"]
  by (simp add: SMALL_TOI_value dne_def deq_def fsub_def fmul_def fl_small_numbers)

section \<open>Properties of the potential assembler\<close>

subsection \<open>Addition of doubles\<close>

lemma dadd_commute: "dadd x y = dadd y x"
  by (cases x; cases y) simp_all

lemma dadd_assoc: "dadd (dadd x y) z = dadd x (dadd y z)"
  by (cases x; cases y; cases z) simp_all

lemma dadd_zero_left: "dadd (Fin 0) x = x"
  by (cases x) simp_all

lemma dadd_zero_right: "dadd x (Fin 0) = x"
  by (cases x) simp_all

lemma fold_dadd_shift:
  "dadd a (fold (\<lambda>i p. dadd p (f i)) xs b) = fold (\<lambda>i p. dadd p (f i)) xs (dadd a b)"
  by (induction xs arbitrary: b) (simp_all add: dadd_assoc)

lemma fold_ranges_concat:
  "fold (\<lambda>(b, e) local. fold body [b..<e] local) ranges init
     = fold body (concat (map (\<lambda>(b, e). [b..<e]) ranges)) init"
  by (induction ranges arbitrary: init) (auto simp: case_prod_unfold)

lemma merge_sum_threads:
  "fold (\<lambda>local_potential potential. dadd potential local_potential)
     (parallel_for sched (Fin 0) (\<lambda>i p. dadd p (f i))) a
   = fold (\<lambda>i p. dadd p (f i)) (concat (map (\<lambda>(b, e). [b..<e]) (concat sched))) a"
proof (induction sched arbitrary: a)
  case Nil
  then show ?case by (simp add: parallel_for_def)
next
  case (Cons ranges sched)
  have "dadd a (fold (\<lambda>i p. dadd p (f i)) (concat (map (\<lambda>(b, e). [b..<e]) ranges)) (Fin 0))
        = fold (\<lambda>i p. dadd p (f i)) (concat (map (\<lambda>(b, e). [b..<e]) ranges)) a"
    by (simp add: fold_dadd_shift dadd_zero_right)
  with Cons show ?case
    by (simp add: parallel_for_def fold_ranges_concat)
qed

lemma fold_dadd_perm:
  assumes "mset xs = mset ys"
  shows "fold (\<lambda>i p. dadd p (f i)) xs a = fold (\<lambda>i p. dadd p (f i)) ys a"
proof -
  have "fold (\<lambda>i p. dadd p (f i)) xs = fold (\<lambda>i p. dadd p (f i)) ys"
    by (rule fold_multiset_equiv [OF _ assms])
       (auto simp: fun_eq_iff dadd_assoc dadd_commute [of "f _" "f _"])
  then show ?thesis by simp
qed

lemma valid_schedule_mset:
  "valid_schedule n sched \<Longrightarrow>
     mset (concat (map (\<lambda>(b, e). [b..<e]) (concat sched))) = mset [0..<n]"
  unfolding valid_schedule_def by (metis mset_sort)

lemma fold_nth_upt:
  "fold (\<lambda>i. g (xs ! i)) [0..<length xs] a = fold g xs a"
proof -
  have "fold g (map (\<lambda>i. xs ! i) [0..<length xs]) a = fold g xs a"
    by (simp add: map_nth)
  then show ?thesis by (simp add: fold_map comp_def)
qed

text \<open>
  C7. For a non-empty constraint set and every valid schedule of the parallel loop, the
  thread-local accumulation followed by the merge of \<open>compute_barrier_potential\<close> returns
  the sequential sum of the constraints' local barrier contributions (finite arithmetic
  being exact in the model, the order of summation does not matter).
\<close>

theorem compute_barrier_potential_is_sum:
  assumes "rows V = num_vertices mesh" and "constraint_set \<noteq> []"
    and "valid_schedule (length constraint_set) sched"
  shows "compute_barrier_potential mesh V constraint_set dhat sched
           = Inr (sum_of_barrier_contributions mesh V constraint_set dhat)"
proof -
  let ?f = "\<lambda>i. compute_potential (constraint_set ! i) V (edges mesh) (faces mesh) dhat"
  let ?g = "\<lambda>c p. dadd p (compute_potential c V (edges mesh) (faces mesh) dhat)"
  have "fold (\<lambda>l p. dadd p l) (parallel_for sched (Fin 0) (\<lambda>i p. dadd p (?f i))) (Fin 0)
        = fold (\<lambda>i p. dadd p (?f i)) (concat (map (\<lambda>(b, e). [b..<e]) (concat sched))) (Fin 0)"
    by (rule merge_sum_threads)
  also have "\<dots> = fold (\<lambda>i p. dadd p (?f i)) [0..<length constraint_set] (Fin 0)"
    by (rule fold_dadd_perm) (rule valid_schedule_mset [OF assms(3)])
  also have "\<dots> = fold ?g constraint_set (Fin 0)"
    by (rule fold_nth_upt [of ?g])
  finally show ?thesis
    using assms(1,2)
    by (simp add: compute_barrier_potential_def sum_of_barrier_contributions_def Let_def)
qed

theorem compute_barrier_potential_is_sum_witness:
  "valid_schedule 3 [[(2, 3)], [(0, 2)]] \<and>
   compute_barrier_potential (example_mesh 2) (example_vertices 2 2)
     [example_constraint (Fin 1) (Fin 1) (Fin 1), example_constraint (Fin 2) (Fin 1) (Fin 1),
      example_constraint (Fin 3) (Fin 1) (Fin 1)] (Fin 1) [[(2, 3)], [(0, 2)]] = Inr (Fin 6)"
  using compute_barrier_potential_is_sum [of "example_vertices 2 2" "example_mesh 2"
      "[example_constraint (Fin 1) (Fin 1) (Fin 1), example_constraint (Fin 2) (Fin 1) (Fin 1),
      example_constraint (Fin 3) (Fin 1) (Fin 1)]" "[[(2, 3)], [(0, 2)]]" "Fin 1"]
  by (simp add: valid_schedule_def upt_rec sum_of_barrier_contributions_def
      example_mesh_def example_vertices_def example_constraint_def)

section \<open>Properties of the minimum distance\<close>

lemma min_step_commute: "min_step x (min_step y m) = min_step y (min_step x m)"
  by (cases x; cases y; cases m) (auto simp: min_step_def)

lemma min_step_not_NaN: "a \<noteq> NaN \<Longrightarrow> min_step d a \<noteq> NaN"
  by (cases d; cases a) (auto simp: min_step_def)

lemma min_step_merge:
  "a \<noteq> NaN \<Longrightarrow> min_step (min_step d a) m = min_step d (min_step a m)"
  by (cases d; cases a; cases m) (auto simp: min_step_def)

lemma min_step_PInf: "min_step PInf m = m"
  by (cases m) (simp_all add: min_step_def)

lemma fold_min_step_shift:
  "a \<noteq> NaN \<Longrightarrow> min_step (fold min_step ds a) m = fold min_step ds (min_step a m)"
proof (induction ds arbitrary: a)
  case Nil
  then show ?case by simp
next
  case (Cons d ds)
  then show ?case
    by (simp add: min_step_not_NaN min_step_merge)
qed

lemma merge_min_threads:
  "fold (\<lambda>local_min_dist min_dist. std_min min_dist local_min_dist)
     (parallel_for sched PInf (\<lambda>i. min_step (f i))) m
   = fold (\<lambda>i. min_step (f i)) (concat (map (\<lambda>(b, e). [b..<e]) (concat sched))) m"
proof (induction sched arbitrary: m)
  case Nil
  then show ?case by (simp add: parallel_for_def)
next
  case (Cons ranges sched)
  let ?is = "concat (map (\<lambda>(b, e). [b..<e]) ranges)"
  have "std_min m (fold (\<lambda>i. min_step (f i)) ?is PInf)
          = min_step (fold min_step (map f ?is) PInf) m"
    by (simp add: std_min_def min_step_def fold_map comp_def)
  also have "\<dots> = fold min_step (map f ?is) m"
    by (simp add: fold_min_step_shift min_step_PInf)
  finally have "std_min m (fold (\<lambda>i. min_step (f i)) ?is PInf)
          = fold (\<lambda>i. min_step (f i)) ?is m"
    by (simp add: fold_map comp_def)
  with Cons show ?case
    by (simp add: parallel_for_def fold_ranges_concat)
qed

lemma fold_min_step_perm:
  assumes "mset xs = mset ys"
  shows "fold (\<lambda>i. min_step (f i)) xs m = fold (\<lambda>i. min_step (f i)) ys m"
proof -
  have "fold (\<lambda>i. min_step (f i)) xs = fold (\<lambda>i. min_step (f i)) ys"
    by (rule fold_multiset_equiv [OF _ assms]) (auto simp: fun_eq_iff min_step_commute)
  then show ?thesis by simp
qed

lemma min_step_lower:
  "a \<noteq> NaN \<Longrightarrow> m \<noteq> NaN \<Longrightarrow> \<not> dlt (min_step d a) m \<Longrightarrow> \<not> dlt a m \<and> \<not> dlt d m"
  by (cases a; cases m; cases d) (auto simp: min_step_def split: if_splits)

lemma fold_min_step_is_minimum:
  "a \<noteq> NaN \<Longrightarrow>
     fold min_step ds a \<noteq> NaN \<and>
     (fold min_step ds a = a \<or> fold min_step ds a \<in> set ds) \<and>
     \<not> dlt a (fold min_step ds a) \<and>
     (\<forall>d\<in>set ds. \<not> dlt d (fold min_step ds a))"
proof (induction ds arbitrary: a)
  case Nil
  then show ?case by (cases a) simp_all
next
  case (Cons d ds)
  let ?m = "fold min_step ds (min_step d a)"
  have a': "min_step d a \<noteq> NaN"
    using Cons.prems by (rule min_step_not_NaN)
  from Cons.IH [OF a'] have ih:
    "?m \<noteq> NaN" "?m = min_step d a \<or> ?m \<in> set ds" "\<not> dlt (min_step d a) ?m"
    "\<forall>x\<in>set ds. \<not> dlt x ?m"
    by simp_all
  have low: "\<not> dlt a ?m \<and> \<not> dlt d ?m"
    using Cons.prems ih(1) ih(3) by (rule min_step_lower)
  have mem: "?m = a \<or> ?m = d \<or> ?m \<in> set ds"
    using ih(2) by (auto simp: min_step_def split: if_splits)
  show ?case
    using ih(1,4) low mem by auto
qed

lemma not_less_PInf: "d \<noteq> NaN \<Longrightarrow> \<not> dlt d PInf \<Longrightarrow> d = PInf"
  by (cases d) simp_all

text \<open>
  C10. For the empty constraint set \<open>compute_minimum_distance\<close> returns positive infinity.
  For a non-empty constraint set and every valid schedule it returns a value \<open>m\<close> that no
  constraint's computed distance is less than, and that is the computed distance of one of
  the constraints when none of them is NaN: the minimum of the computed distances. (A
  NaN distance is skipped by the comparison; \<open>m\<close> is positive infinity when every distance
  is NaN or positive infinity.) The value compared is what \<^verbatim>\<open>compute_distance\<close> returns, which
  the source's note calls the squared distance.
\<close>

theorem compute_minimum_distance_is_minimum:
  assumes "rows V = num_vertices mesh"
  shows "(constraint_set = [] \<longrightarrow> compute_minimum_distance mesh V constraint_set sched = Inr PInf)
    \<and> (constraint_set \<noteq> [] \<and> valid_schedule (length constraint_set) sched \<longrightarrow>
         (\<exists>m. compute_minimum_distance mesh V constraint_set sched = Inr m
            \<and> m \<noteq> NaN
            \<and> (\<forall>c\<in>set constraint_set.
                  \<not> dlt (compute_distance c V (edges mesh) (faces mesh)) m)
            \<and> (m = PInf \<or>
                 (\<exists>c\<in>set constraint_set. m = compute_distance c V (edges mesh) (faces mesh)))
            \<and> ((\<forall>c\<in>set constraint_set. compute_distance c V (edges mesh) (faces mesh) \<noteq> NaN)
                 \<longrightarrow> (\<exists>c\<in>set constraint_set.
                        m = compute_distance c V (edges mesh) (faces mesh)))))"
proof (intro conjI impI)
  assume "constraint_set = []"
  then show "compute_minimum_distance mesh V constraint_set sched = Inr PInf"
    using assms by (simp add: compute_minimum_distance_def)
next
  assume ne: "constraint_set \<noteq> [] \<and> valid_schedule (length constraint_set) sched"
  let ?d = "\<lambda>c. compute_distance c V (edges mesh) (faces mesh)"
  let ?f = "\<lambda>i. ?d (constraint_set ! i)"
  let ?m = "fold min_step (map ?d constraint_set) PInf"
  have "fold (\<lambda>l m. std_min m l) (parallel_for sched PInf (\<lambda>i. min_step (?f i))) PInf
        = fold (\<lambda>i. min_step (?f i)) (concat (map (\<lambda>(b, e). [b..<e]) (concat sched))) PInf"
    by (rule merge_min_threads)
  also have "\<dots> = fold (\<lambda>i. min_step (?f i)) [0..<length constraint_set] PInf"
    using ne by (intro fold_min_step_perm valid_schedule_mset) simp
  also have "\<dots> = fold (\<lambda>c. min_step (?d c)) constraint_set PInf"
    by (rule fold_nth_upt [of "\<lambda>c. min_step (?d c)"])
  also have "\<dots> = ?m"
    by (simp add: fold_map comp_def)
  finally have res: "compute_minimum_distance mesh V constraint_set sched = Inr ?m"
    using assms ne
    by (simp add: compute_minimum_distance_def Let_def min_step_def [abs_def])
  have props: "?m \<noteq> NaN" "?m = PInf \<or> ?m \<in> set (map ?d constraint_set)"
    "\<forall>d\<in>set (map ?d constraint_set). \<not> dlt d ?m"
    using fold_min_step_is_minimum [of PInf "map ?d constraint_set"] by simp_all
  have mem: "\<exists>c\<in>set constraint_set. ?m = ?d c"
    if noNaN: "\<forall>c\<in>set constraint_set. ?d c \<noteq> NaN"
  proof (cases "?m = PInf")
    case True
    from ne obtain c where c: "c \<in> set constraint_set"
      by (cases constraint_set) auto
    with props(3) True have "\<not> dlt (?d c) PInf" by simp
    with noNaN c have "?d c = PInf" by (simp add: not_less_PInf)
    with True c show ?thesis by (intro bexI [of _ c]) simp_all
  next
    case False
    with props(2) show ?thesis by auto
  qed
  show "\<exists>m. compute_minimum_distance mesh V constraint_set sched = Inr m
            \<and> m \<noteq> NaN
            \<and> (\<forall>c\<in>set constraint_set. \<not> dlt (?d c) m)
            \<and> (m = PInf \<or> (\<exists>c\<in>set constraint_set. m = ?d c))
            \<and> ((\<forall>c\<in>set constraint_set. ?d c \<noteq> NaN)
                 \<longrightarrow> (\<exists>c\<in>set constraint_set. m = ?d c))"
    using res props mem by (intro exI [of _ ?m]) auto
qed

theorem compute_minimum_distance_is_minimum_witness:
  "rows (example_vertices 2 2) = num_vertices (example_mesh 2)
   \<and> valid_schedule 3 [[(2, 3)], [(0, 2)]]
   \<and> compute_minimum_distance (example_mesh 2) (example_vertices 2 2)
     [example_constraint (Fin 1) (Fin 4) (Fin 1), example_constraint (Fin 2) (Fin 9) (Fin 1),
      example_constraint (Fin 3) (Fin 1) (Fin 1)] [[(2, 3)], [(0, 2)]] = Inr (Fin 1)
   \<and> compute_minimum_distance (example_mesh 2) (example_vertices 2 2) [] [] = Inr PInf"
  using compute_minimum_distance_is_minimum [of "example_vertices 2 2" "example_mesh 2"
      "[example_constraint (Fin 1) (Fin 4) (Fin 1), example_constraint (Fin 2) (Fin 9) (Fin 1),
      example_constraint (Fin 3) (Fin 1) (Fin 1)]" "[[(2, 3)], [(0, 2)]]"]
    compute_minimum_distance_is_minimum [of "example_vertices 2 2" "example_mesh 2" "[]" "[]"]
  by (auto simp add: valid_schedule_def upt_rec
      example_mesh_def example_vertices_def example_constraint_def)

section \<open>Properties of the derivatives\<close>

text \<open>
  C5. When the vertex count of \<open>V\<close> matches the mesh and the constraint set is empty, the
  potential is \<open>0\<close>, the gradient is the zero vector of size \<open>num_vertices * dim\<close> and the
  Hessian is the sparse matrix of that extent with no entry (every coefficient is \<open>0\<close>),
  whatever the schedule: the parallel loop is not reached.
\<close>

theorem empty_constraint_set_shortcuts:
  assumes "rows V = num_vertices mesh"
  shows "compute_barrier_potential mesh V [] dhat sched = Inr (Fin 0)
    \<and> compute_barrier_potential_gradient utils mesh V [] dhat sched
        = Inr (replicate (num_vertices mesh * cols V) (Fin 0))
    \<and> compute_barrier_potential_hessian utils mesh V [] dhat project_hessian_to_psd sched
        = Inr \<lparr>sm_rows = num_vertices mesh * cols V, sm_cols = num_vertices mesh * cols V,
               sm_triplets = []\<rparr>
    \<and> sm_coeff \<lparr>sm_rows = num_vertices mesh * cols V, sm_cols = num_vertices mesh * cols V,
                 sm_triplets = []\<rparr> i j = Fin 0"
  using assms
  by (simp add: compute_barrier_potential_def compute_barrier_potential_gradient_def
      compute_barrier_potential_hessian_def matrix_size_def sm_zero_def sm_coeff_def)

theorem empty_constraint_set_shortcuts_witness:
  "rows (example_vertices 2 3) = num_vertices (example_mesh 2)
   \<and> compute_barrier_potential (example_mesh 2) (example_vertices 2 3) [] (Fin 1) [] = Inr (Fin 0)
   \<and> compute_barrier_potential_gradient example_utils (example_mesh 2) (example_vertices 2 3) []
        (Fin 1) [] = Inr [Fin 0, Fin 0, Fin 0, Fin 0, Fin 0, Fin 0]
   \<and> compute_barrier_potential_hessian example_utils (example_mesh 2) (example_vertices 2 3) []
        (Fin 1) True [] = Inr \<lparr>sm_rows = 6, sm_cols = 6, sm_triplets = []\<rparr>"
  using empty_constraint_set_shortcuts [of "example_vertices 2 3" "example_mesh 2" "Fin 1" "[]"
      example_utils True]
  by (simp add: example_vertices_def example_mesh_def numeral_eq_Suc)









section \<open>Properties of the time-of-impact reducer\<close>

subsection \<open>One step\<close>

lemma toi_step_Call:
  "toi_step cands V0 V1 E F tol maxit (Call i) st =
     st\<lparr>calls := calls st @
        [(i, earliest_toi st, ccd (cands ! i) V0 V1 E F PInf (earliest_toi st) tol maxit)]\<rparr>"
  by (simp add: toi_step_def Let_def case_prod_unfold)

lemma toi_step_Update:
  "map_of (calls st) i = Some (tmax, are_colliding, toi) \<Longrightarrow>
   toi_step cands V0 V1 E F tol maxit (Update i) st =
     st\<lparr>earliest_toi := fold min_step (if are_colliding then [toi] else []) (earliest_toi st)\<rparr>"
  by (simp add: toi_step_def min_step_def)

lemma toi_step_Update_calls:
  "calls (toi_step cands V0 V1 E F tol maxit (Update i) st) = calls st"
  by (simp add: toi_step_def split: option.splits prod.splits)

lemma toi_run_calls_extend:
  "\<exists>new. calls (fold (toi_step cands V0 V1 E F tol maxit) evs st) = calls st @ new
         \<and> map fst new = called_indices evs"
proof (induction evs arbitrary: st)
  case Nil
  then show ?case by simp
next
  case (Cons ev evs)
  show ?case
  proof (cases ev)
    case (Call i)
    from Cons.IH [of "toi_step cands V0 V1 E F tol maxit (Call i) st"]
    show ?thesis using Call by (auto simp: toi_step_Call)
  next
    case (Update i)
    from Cons.IH [of "toi_step cands V0 V1 E F tol maxit (Update i) st"]
    show ?thesis using Update by (auto simp: toi_step_Update_calls)
  qed
qed

lemma at_most_one_dle: "at_most_one t \<longleftrightarrow> dle t (Fin 1)"
  by (cases t) (auto simp: at_most_one_def dle_def deq_def)

lemma min_step_at_most_one: "at_most_one m \<Longrightarrow> at_most_one (min_step d m)"
  by (cases d; cases m) (auto simp: at_most_one_def min_step_def)

lemma toi_step_at_most_one:
  "at_most_one (earliest_toi st) \<Longrightarrow>
     at_most_one (earliest_toi (toi_step cands V0 V1 E F tol maxit ev st))"
proof (cases ev)
  case (Call i)
  assume "at_most_one (earliest_toi st)"
  then show ?thesis using Call by (simp add: toi_step_Call)
next
  case (Update i)
  assume a: "at_most_one (earliest_toi st)"
  show ?thesis
  proof (cases "map_of (calls st) i")
    case None
    then show ?thesis using a Update by (simp add: toi_step_def)
  next
    case (Some v)
    obtain tmax col toi where "v = (tmax, col, toi)" by (cases v) auto
    with Some a Update show ?thesis
      by (simp add: toi_step_Update min_step_at_most_one)
  qed
qed

lemma toi_run_invariant:
  assumes "at_most_one (earliest_toi st)"
    and "\<forall>c\<in>set (calls st). call_ok cands V0 V1 E F tol maxit c"
  shows "at_most_one (earliest_toi (fold (toi_step cands V0 V1 E F tol maxit) evs st))
    \<and> (\<forall>c\<in>set (calls (fold (toi_step cands V0 V1 E F tol maxit) evs st)).
          call_ok cands V0 V1 E F tol maxit c)"
  using assms
proof (induction evs arbitrary: st)
  case Nil
  then show ?case by simp
next
  case (Cons ev evs)
  let ?st = "toi_step cands V0 V1 E F tol maxit ev st"
  have 1: "at_most_one (earliest_toi ?st)"
    using Cons.prems(1) by (rule toi_step_at_most_one)
  have 2: "\<forall>c\<in>set (calls ?st). call_ok cands V0 V1 E F tol maxit c"
  proof (cases ev)
    case (Call i)
    have "call_ok cands V0 V1 E F tol maxit
            (i, earliest_toi st, ccd (cands ! i) V0 V1 E F PInf (earliest_toi st) tol maxit)"
      using Cons.prems(1) by (simp add: call_ok_def case_prod_unfold at_most_one_dle)
    with Cons.prems(2) Call show ?thesis by (simp add: toi_step_Call)
  next
    case (Update i)
    with Cons.prems(2) show ?thesis by (simp add: toi_step_Update_calls)
  qed
  from Cons.IH [OF 1 2] show ?case by simp
qed

lemma reported_toi_append:
  "i \<in> fst ` set cs \<Longrightarrow> reported_toi (cs @ new) i = reported_toi cs i"
proof -
  assume "i \<in> fst ` set cs"
  then obtain v where "map_of cs i = Some v"
    by (metis map_of_eq_None_iff not_Some_eq)
  then show ?thesis by (simp add: reported_toi_def)
qed

lemma toi_run_earliest:
  assumes "calls_precede_updates (fst ` set (calls st)) evs"
  shows "earliest_toi (fold (toi_step cands V0 V1 E F tol maxit) evs st)
         = fold min_step
             (concat (map (reported_toi (calls (fold (toi_step cands V0 V1 E F tol maxit) evs st)))
                        (updated_indices evs)))
             (earliest_toi st)"
  using assms
proof (induction evs arbitrary: st)
  case Nil
  then show ?case by simp
next
  case (Cons ev evs)
  let ?step = "toi_step cands V0 V1 E F tol maxit"
  show ?case
  proof (cases ev)
    case (Call i)
    have "calls_precede_updates (fst ` set (calls (?step (Call i) st))) evs"
      using Cons.prems Call by (simp add: toi_step_Call)
    from Cons.IH [OF this] show ?thesis
      using Call by (simp add: toi_step_Call)
  next
    case (Update i)
    with Cons.prems have i: "i \<in> fst ` set (calls st)"
      and rest: "calls_precede_updates (fst ` set (calls st)) evs"
      by simp_all
    from i obtain v where v: "map_of (calls st) i = Some v"
      by (metis map_of_eq_None_iff not_Some_eq)
    obtain tmax col toi where vv: "v = (tmax, col, toi)" by (cases v) auto
    let ?st = "?step (Update i) st"
    have st': "?st = st\<lparr>earliest_toi := fold min_step (reported_toi (calls st) i) (earliest_toi st)\<rparr>"
      using v vv by (simp add: toi_step_Update reported_toi_def)
    have rest': "calls_precede_updates (fst ` set (calls ?st)) evs"
      using rest by (simp add: toi_step_Update_calls)
    obtain new where new: "calls (fold ?step evs ?st) = calls ?st @ new"
      using toi_run_calls_extend [of cands V0 V1 E F tol maxit evs ?st] by blast
    have same: "reported_toi (calls (fold ?step evs ?st)) i = reported_toi (calls st) i"
      using i new by (simp add: toi_step_Update_calls reported_toi_append)
    from Cons.IH [OF rest'] show ?thesis
      using Update same by (simp add: st')
  qed
qed

lemma mset_concat_map_cong:
  assumes "mset us = mset vs"
  shows "mset (concat (map g us)) = mset (concat (map g vs))"
proof -
  have eq: "sum_list (map (\<lambda>u. mset (g u)) ws) = sum_mset (image_mset (\<lambda>u. mset (g u)) (mset ws))"
    for ws
    by (simp flip: sum_mset_sum_list)
  show ?thesis
    by (simp add: mset_concat comp_def eq assms)
qed

lemma fold_min_step_mset:
  assumes "mset xs = mset ys"
  shows "fold min_step xs m = fold min_step ys m"
proof -
  have "fold min_step xs = fold min_step ys"
    by (rule fold_multiset_equiv [OF _ assms]) (auto simp: fun_eq_iff min_step_commute)
  then show ?thesis by simp
qed

lemma toi_run_minimum:
  assumes "valid_interleaving n evs"
  shows "earliest_toi (toi_run cands V0 V1 E F tol maxit evs)
         = minimum_toi (concat (map (reported_toi (calls (toi_run cands V0 V1 E F tol maxit evs)))
                                  [0..<n]))"
proof -
  let ?cs = "calls (toi_run cands V0 V1 E F tol maxit evs)"
  have "mset (sort (updated_indices evs)) = mset [0..<n]"
    using assms by (simp add: valid_interleaving_def)
  then have "mset (updated_indices evs) = mset [0..<n]"
    by simp
  then have perm: "mset (concat (map (reported_toi ?cs) (updated_indices evs)))
           = mset (concat (map (reported_toi ?cs) [0..<n]))"
    by (rule mset_concat_map_cong)
  have "calls_precede_updates (fst ` set (calls \<lparr>earliest_toi = Fin 1, calls = []\<rparr>)) evs"
    using assms by (simp add: valid_interleaving_def)
  then have "earliest_toi (toi_run cands V0 V1 E F tol maxit evs)
        = fold min_step (concat (map (reported_toi ?cs) (updated_indices evs))) (Fin 1)"
    unfolding toi_run_def by (simp add: toi_run_earliest)
  also have "\<dots> = fold min_step (concat (map (reported_toi ?cs) [0..<n])) (Fin 1)"
    using perm by (rule fold_min_step_mset)
  finally show ?thesis
    by (simp add: minimum_toi_def)
qed

lemma toi_run_every_candidate_called:
  assumes "valid_interleaving n evs" and "i < n"
  shows "\<exists>tmax are_colliding toi.
           map_of (calls (toi_run cands V0 V1 E F tol maxit evs)) i = Some (tmax, are_colliding, toi)
         \<and> ccd (cands ! i) V0 V1 E F PInf tmax tol maxit = (are_colliding, toi)
         \<and> dle tmax (Fin 1)"
proof -
  let ?cs = "calls (toi_run cands V0 V1 E F tol maxit evs)"
  have "map fst ?cs = called_indices evs"
    using toi_run_calls_extend [of cands V0 V1 E F tol maxit evs "\<lparr>earliest_toi = Fin 1, calls = []\<rparr>"]
    by (auto simp: toi_run_def)
  moreover have "set (sort (called_indices evs)) = set [0..<n]"
    using assms(1) by (simp add: valid_interleaving_def)
  then have "set (called_indices evs) = {0..<n}"
    by simp
  ultimately have "fst ` set ?cs = {0..<n}"
    by (simp flip: set_map)
  then have "i \<in> fst ` set ?cs"
    using assms(2) by simp
  then obtain v where v: "map_of ?cs i = Some v"
    by (metis map_of_eq_None_iff not_Some_eq)
  obtain tmax col toi where vv: "v = (tmax, col, toi)" by (cases v) auto
  have "(i, tmax, col, toi) \<in> set ?cs"
    using v vv by (simp add: map_of_SomeD)
  moreover have "\<forall>c\<in>set ?cs. call_ok cands V0 V1 E F tol maxit c"
    using toi_run_invariant [of "\<lparr>earliest_toi = Fin 1, calls = []\<rparr>" cands V0 V1 E F tol maxit evs]
    by (simp add: toi_run_def at_most_one_def)
  ultimately have "call_ok cands V0 V1 E F tol maxit (i, tmax, col, toi)" by blast
  then show ?thesis using v vv by (simp add: call_ok_def)
qed

lemma toi_run_at_most_one:
  "dle (earliest_toi (toi_run cands V0 V1 E F tol maxit evs)) (Fin 1)"
  using toi_run_invariant [of "\<lparr>earliest_toi = Fin 1, calls = []\<rparr>" cands V0 V1 E F tol maxit evs]
  by (simp add: toi_run_def at_most_one_def flip: at_most_one_dle)

lemma minimum_toi_is_minimum:
  "minimum_toi ts \<noteq> NaN \<and> dle (minimum_toi ts) (Fin 1)
   \<and> (\<forall>t\<in>set ts. \<not> dlt t (minimum_toi ts))
   \<and> (minimum_toi ts = Fin 1 \<or> minimum_toi ts \<in> set ts)"
  using fold_min_step_is_minimum [of "Fin 1" ts]
  by (simp add: minimum_toi_def flip: at_most_one_dle) (simp add: at_most_one_def)

lemma stepsize_result:
  assumes "rows V0 = num_vertices mesh" and "rows V1 = num_vertices mesh"
    and "candidates \<noteq> []" and "valid_interleaving (length candidates) events"
  shows "compute_collision_free_stepsize candidates mesh V0 V1 tol maxit events =
     (let m = minimum_toi (concat (map (reported_toi
                (calls (toi_run candidates V0 V1 (edges mesh) (faces mesh) tol maxit events)))
                [0..<length candidates]))
      in if dle (Fin 0) m then Inr m
         else Inl (AssertionFailed ''earliest_toi >= 0 && earliest_toi <= 1.0''))"
proof -
  let ?run = "toi_run candidates V0 V1 (edges mesh) (faces mesh) tol maxit events"
  have m: "earliest_toi ?run
      = minimum_toi (concat (map (reported_toi (calls ?run)) [0..<length candidates]))"
    using assms(4) by (rule toi_run_minimum)
  have "dle (earliest_toi ?run) (Fin 1)"
    by (rule toi_run_at_most_one)
  then show ?thesis
    using assms(1,2,3) m by (simp add: compute_collision_free_stepsize_def Let_def)
qed

lemma minimum_toi_eq_one:
  "minimum_toi ts = Fin 1 \<longleftrightarrow> (\<forall>t\<in>set ts. \<not> dlt t (Fin 1))"
proof
  assume "minimum_toi ts = Fin 1"
  then show "\<forall>t\<in>set ts. \<not> dlt t (Fin 1)"
    using minimum_toi_is_minimum [of ts] by auto
next
  assume a: "\<forall>t\<in>set ts. \<not> dlt t (Fin 1)"
  have m: "minimum_toi ts \<noteq> NaN" "dle (minimum_toi ts) (Fin 1)"
    "minimum_toi ts = Fin 1 \<or> minimum_toi ts \<in> set ts"
    using minimum_toi_is_minimum [of ts] by simp_all
  show "minimum_toi ts = Fin 1"
  proof (rule ccontr)
    assume n: "minimum_toi ts \<noteq> Fin 1"
    with m(3) have "minimum_toi ts \<in> set ts" by simp
    with a have "\<not> dlt (minimum_toi ts) (Fin 1)" by simp
    with m(2) n show False by (simp add: dle_def deq_def)
  qed
qed

lemma example_valid_interleaving:
  "valid_interleaving 3 [Call 0, Call 1, Update 0, Call 2, Update 2, Update 1]"
  by (simp add: valid_interleaving_def upt_rec)

lemma example_toi_run:
  "toi_run [example_candidate (Some (Fin (1/2))), example_candidate None,
            example_candidate (Some (Fin (1/4)))] V0 V1 E F tol maxit
       [Call 0, Call 1, Update 0, Call 2, Update 2, Update 1]
     = \<lparr>earliest_toi = Fin (1/4),
        calls = [(0, Fin 1, True, Fin (1/2)), (1, Fin 1, False, PInf),
                 (2, Fin (1/2), True, Fin (1/4))]\<rparr>"
proof -
  let ?step = "toi_step [example_candidate (Some (Fin (1/2))), example_candidate None,
            example_candidate (Some (Fin (1/4)))] V0 V1 E F tol maxit"
  let ?c0 = "(0::nat, Fin 1, True, Fin (1/2))"
  let ?c1 = "(1::nat, Fin 1, False, PInf)"
  let ?c2 = "(2::nat, Fin (1/2), True, Fin (1/4))"
  have 1: "?step (Call 0) \<lparr>earliest_toi = Fin 1, calls = []\<rparr>
             = \<lparr>earliest_toi = Fin 1, calls = [?c0]\<rparr>"
    by (simp add: toi_step_def example_candidate_def dle_def deq_def Let_def)
  have 2: "?step (Call 1) \<lparr>earliest_toi = Fin 1, calls = [?c0]\<rparr>
             = \<lparr>earliest_toi = Fin 1, calls = [?c0, ?c1]\<rparr>"
    by (simp add: toi_step_def example_candidate_def dle_def deq_def Let_def)
  have 3: "?step (Update 0) \<lparr>earliest_toi = Fin 1, calls = [?c0, ?c1]\<rparr>
             = \<lparr>earliest_toi = Fin (1/2), calls = [?c0, ?c1]\<rparr>"
    by (simp add: toi_step_def)
  have 4: "?step (Call 2) \<lparr>earliest_toi = Fin (1/2), calls = [?c0, ?c1]\<rparr>
             = \<lparr>earliest_toi = Fin (1/2), calls = [?c0, ?c1, ?c2]\<rparr>"
    by (simp add: toi_step_def example_candidate_def dle_def deq_def Let_def)
  have 5: "?step (Update 2) \<lparr>earliest_toi = Fin (1/2), calls = [?c0, ?c1, ?c2]\<rparr>
             = \<lparr>earliest_toi = Fin (1/4), calls = [?c0, ?c1, ?c2]\<rparr>"
    by (simp add: toi_step_def)
  have 6: "?step (Update 1) \<lparr>earliest_toi = Fin (1/4), calls = [?c0, ?c1, ?c2]\<rparr>
             = \<lparr>earliest_toi = Fin (1/4), calls = [?c0, ?c1, ?c2]\<rparr>"
    by (simp add: toi_step_def)
  show ?thesis
    unfolding toi_run_def
    by (simp only: fold_simps comp_apply id_apply 1 2 3 4 5 6)
qed

lemma example_stepsize:
  "compute_collision_free_stepsize
        [example_candidate (Some (Fin (1/2))), example_candidate None,
         example_candidate (Some (Fin (1/4)))]
        (example_mesh 2) (example_vertices 2 2) (example_vertices 2 2) (Fin (1/1000000)) 100
        [Call 0, Call 1, Update 0, Call 2, Update 2, Update 1] = Inr (Fin (1/4))"
  unfolding compute_collision_free_stepsize_def example_toi_run
  by (simp add: Let_def dle_def deq_def example_vertices_def example_mesh_def)

text \<open>
  C2. With the vertex counts of \<open>V0\<close> and \<open>V1\<close> matching the mesh: for the empty candidate
  set \<open>compute_collision_free_stepsize\<close> returns exactly \<open>1\<close>. For a non-empty candidate
  set and every valid interleaving of the workers, every candidate's \<^verbatim>\<open>ccd\<close> is called with
  a \<^verbatim>\<open>tmax\<close> of at most \<open>1\<close>, and the value \<open>m\<close> the function arrives at is the minimum of \<open>1\<close>
  and the times of impact the colliding candidates reported: it is at most \<open>1\<close>, no
  reported time is less than it, and it is \<open>1\<close> or one of them. The function returns \<open>m\<close>
  when \<open>0 <= m\<close> and fails its final assertion otherwise.
\<close>

theorem compute_collision_free_stepsize_is_minimum_toi:
  assumes "rows V0 = num_vertices mesh" and "rows V1 = num_vertices mesh"
  shows "(candidates = [] \<longrightarrow>
            compute_collision_free_stepsize candidates mesh V0 V1 tol maxit events = Inr (Fin 1))
    \<and> (candidates \<noteq> [] \<and> valid_interleaving (length candidates) events \<longrightarrow>
         (\<exists>cs m.
            cs = calls (toi_run candidates V0 V1 (edges mesh) (faces mesh) tol maxit events)
          \<and> (\<forall>i<length candidates. \<exists>tmax are_colliding toi.
                 map_of cs i = Some (tmax, are_colliding, toi)
               \<and> ccd (candidates ! i) V0 V1 (edges mesh) (faces mesh) PInf tmax tol maxit
                   = (are_colliding, toi)
               \<and> dle tmax (Fin 1))
          \<and> m = minimum_toi (concat (map (reported_toi cs) [0..<length candidates]))
          \<and> dle m (Fin 1)
          \<and> (\<forall>t\<in>set (concat (map (reported_toi cs) [0..<length candidates])). \<not> dlt t m)
          \<and> (m = Fin 1 \<or> m \<in> set (concat (map (reported_toi cs) [0..<length candidates])))
          \<and> compute_collision_free_stepsize candidates mesh V0 V1 tol maxit events
              = (if dle (Fin 0) m then Inr m
                 else Inl (AssertionFailed ''earliest_toi >= 0 && earliest_toi <= 1.0''))))"
proof (intro conjI impI)
  assume "candidates = []"
  then show "compute_collision_free_stepsize candidates mesh V0 V1 tol maxit events = Inr (Fin 1)"
    using assms by (simp add: compute_collision_free_stepsize_def)
next
  assume a: "candidates \<noteq> [] \<and> valid_interleaving (length candidates) events"
  let ?cs = "calls (toi_run candidates V0 V1 (edges mesh) (faces mesh) tol maxit events)"
  let ?ts = "concat (map (reported_toi ?cs) [0..<length candidates])"
  have called: "\<forall>i<length candidates. \<exists>tmax are_colliding toi.
                 map_of ?cs i = Some (tmax, are_colliding, toi)
               \<and> ccd (candidates ! i) V0 V1 (edges mesh) (faces mesh) PInf tmax tol maxit
                   = (are_colliding, toi)
               \<and> dle tmax (Fin 1)"
    using a toi_run_every_candidate_called by blast
  have res: "compute_collision_free_stepsize candidates mesh V0 V1 tol maxit events
              = (if dle (Fin 0) (minimum_toi ?ts) then Inr (minimum_toi ?ts)
                 else Inl (AssertionFailed ''earliest_toi >= 0 && earliest_toi <= 1.0''))"
    using stepsize_result [OF assms, of candidates events tol maxit] a by (simp add: Let_def)
  show "\<exists>cs m.
            cs = ?cs
          \<and> (\<forall>i<length candidates. \<exists>tmax are_colliding toi.
                 map_of cs i = Some (tmax, are_colliding, toi)
               \<and> ccd (candidates ! i) V0 V1 (edges mesh) (faces mesh) PInf tmax tol maxit
                   = (are_colliding, toi)
               \<and> dle tmax (Fin 1))
          \<and> m = minimum_toi (concat (map (reported_toi cs) [0..<length candidates]))
          \<and> dle m (Fin 1)
          \<and> (\<forall>t\<in>set (concat (map (reported_toi cs) [0..<length candidates])). \<not> dlt t m)
          \<and> (m = Fin 1 \<or> m \<in> set (concat (map (reported_toi cs) [0..<length candidates])))
          \<and> compute_collision_free_stepsize candidates mesh V0 V1 tol maxit events
              = (if dle (Fin 0) m then Inr m
                 else Inl (AssertionFailed ''earliest_toi >= 0 && earliest_toi <= 1.0''))"
    using called res minimum_toi_is_minimum [of ?ts]
    by (intro exI [of _ ?cs] exI [of _ "minimum_toi ?ts"]) simp
qed

theorem compute_collision_free_stepsize_is_minimum_toi_witness:
  "rows (example_vertices 2 2) = num_vertices (example_mesh 2)
   \<and> [example_candidate (Some (Fin (1/2))), example_candidate None,
       example_candidate (Some (Fin (1/4)))] \<noteq> []
   \<and> valid_interleaving
       (length [example_candidate (Some (Fin (1/2))), example_candidate None,
                example_candidate (Some (Fin (1/4)))])
       [Call 0, Call 1, Update 0, Call 2, Update 2, Update 1]
   \<and> compute_collision_free_stepsize
        [example_candidate (Some (Fin (1/2))), example_candidate None,
         example_candidate (Some (Fin (1/4)))]
        (example_mesh 2) (example_vertices 2 2) (example_vertices 2 2) (Fin (1/1000000)) 100
        [Call 0, Call 1, Update 0, Call 2, Update 2, Update 1] = Inr (Fin (1/4))
   \<and> compute_collision_free_stepsize []
        (example_mesh 2) (example_vertices 2 2) (example_vertices 2 2) (Fin (1/1000000)) 100
        [] = Inr (Fin 1)"
proof -
  have r: "rows (example_vertices 2 2) = num_vertices (example_mesh 2)"
    by (simp add: example_vertices_def example_mesh_def)
  have len: "length [example_candidate (Some (Fin (1/2))), example_candidate None,
         example_candidate (Some (Fin (1/4)))] = 3"
    by simp
  have v: "valid_interleaving
       (length [example_candidate (Some (Fin (1/2))), example_candidate None,
                example_candidate (Some (Fin (1/4)))])
       [Call 0, Call 1, Update 0, Call 2, Update 2, Update 1]"
    unfolding len by (rule example_valid_interleaving)
  have ne: "[example_candidate (Some (Fin (1/2))), example_candidate None,
       example_candidate (Some (Fin (1/4)))] \<noteq> []"
    by simp
  have empty: "compute_collision_free_stepsize []
        (example_mesh 2) (example_vertices 2 2) (example_vertices 2 2) (Fin (1/1000000)) 100
        [] = Inr (Fin 1)"
    using compute_collision_free_stepsize_is_minimum_toi
        [OF r r, of "[]" "Fin (1/1000000)" 100 "[]"]
    by blast
  show ?thesis
    using compute_collision_free_stepsize_is_minimum_toi
        [OF r r, of "[example_candidate (Some (Fin (1/2))), example_candidate None,
            example_candidate (Some (Fin (1/4)))]" "Fin (1/1000000)" 100
            "[Call 0, Call 1, Update 0, Call 2, Update 2, Update 1]",
         THEN conjunct2, THEN mp, OF conjI [OF ne v]]
    by (intro conjI) (rule r ne v example_stepsize empty)+
qed

text \<open>
  C4 (as stated) fails in its "only if" part: a candidate set that is not empty, none of
  whose candidates collides, gives a step size of exactly \<open>1\<close>.
\<close>

theorem full_step_with_candidates:
  "compute_collision_free_stepsize [example_candidate None]
        (example_mesh 2) (example_vertices 2 2) (example_vertices 2 2) (Fin (1/1000000)) 100
        [Call 0, Update 0] = Inr (Fin 1)
   \<and> [example_candidate None] \<noteq> []"
  by (simp add: compute_collision_free_stepsize_def example_vertices_def example_mesh_def
      example_candidate_def toi_run_def toi_step_def dle_def deq_def)

text \<open>
  C4 (amended). With the vertex counts matching the mesh and a valid interleaving: a
  returned step size lies in \<open>[0, 1]\<close>; the empty candidate set gives \<open>1\<close>; the function
  returns a value whenever no reported time of impact is negative (a reported NaN is not);
  and the value returned is \<open>1\<close> exactly when no candidate reported a collision with a
  time of impact below \<open>1\<close>.
\<close>

theorem compute_collision_free_stepsize_range:
  assumes "rows V0 = num_vertices mesh" and "rows V1 = num_vertices mesh"
    and "valid_interleaving (length candidates) events"
  shows "(\<forall>t. compute_collision_free_stepsize candidates mesh V0 V1 tol maxit events = Inr t
             \<longrightarrow> dle (Fin 0) t \<and> dle t (Fin 1))
    \<and> (candidates = [] \<longrightarrow>
          compute_collision_free_stepsize candidates mesh V0 V1 tol maxit events = Inr (Fin 1))
    \<and> ((\<forall>t\<in>set (concat (map (reported_toi
              (calls (toi_run candidates V0 V1 (edges mesh) (faces mesh) tol maxit events)))
              [0..<length candidates])). \<not> dlt t (Fin 0))
        \<longrightarrow> (\<exists>t. compute_collision_free_stepsize candidates mesh V0 V1 tol maxit events = Inr t))
    \<and> (compute_collision_free_stepsize candidates mesh V0 V1 tol maxit events = Inr (Fin 1)
        \<longleftrightarrow> (\<forall>t\<in>set (concat (map (reported_toi
              (calls (toi_run candidates V0 V1 (edges mesh) (faces mesh) tol maxit events)))
              [0..<length candidates])). \<not> dlt t (Fin 1)))"
proof (cases "candidates = []")
  case True
  then show ?thesis
    using assms(1,2)
    by (simp add: compute_collision_free_stepsize_def dle_def deq_def)
next
  case False
  let ?ts = "concat (map (reported_toi
              (calls (toi_run candidates V0 V1 (edges mesh) (faces mesh) tol maxit events)))
              [0..<length candidates])"
  let ?m = "minimum_toi ?ts"
  have res: "compute_collision_free_stepsize candidates mesh V0 V1 tol maxit events
              = (if dle (Fin 0) ?m then Inr ?m
                 else Inl (AssertionFailed ''earliest_toi >= 0 && earliest_toi <= 1.0''))"
    using stepsize_result [OF assms(1,2) False assms(3), of tol maxit] by (simp add: Let_def)
  have m: "?m \<noteq> NaN" "dle ?m (Fin 1)" "?m = Fin 1 \<or> ?m \<in> set ?ts"
    using minimum_toi_is_minimum [of ?ts] by simp_all
  have range: "\<forall>t. compute_collision_free_stepsize candidates mesh V0 V1 tol maxit events = Inr t
             \<longrightarrow> dle (Fin 0) t \<and> dle t (Fin 1)"
    using res m(2) by (auto split: if_splits)
  have returns: "\<exists>t. compute_collision_free_stepsize candidates mesh V0 V1 tol maxit events = Inr t"
    if "\<forall>t\<in>set ?ts. \<not> dlt t (Fin 0)"
  proof -
    have "\<not> dlt ?m (Fin 0)"
      using m(3) that by auto
    then have "dle (Fin 0) ?m"
      using m(1) by (cases ?m) (auto simp: dle_def deq_def)
    then show ?thesis using res by simp
  qed
  have one: "compute_collision_free_stepsize candidates mesh V0 V1 tol maxit events = Inr (Fin 1)
        \<longleftrightarrow> (\<forall>t\<in>set ?ts. \<not> dlt t (Fin 1))"
    using res minimum_toi_eq_one [of ?ts] by (auto simp: dle_def deq_def split: if_splits)
  show ?thesis
    using False range returns one by blast
qed

theorem compute_collision_free_stepsize_range_witness:
  "rows (example_vertices 2 2) = num_vertices (example_mesh 2)
   \<and> valid_interleaving 3 [Call 0, Call 1, Update 0, Call 2, Update 2, Update 1]
   \<and> compute_collision_free_stepsize
        [example_candidate (Some (Fin (1/2))), example_candidate None,
         example_candidate (Some (Fin (1/4)))]
        (example_mesh 2) (example_vertices 2 2) (example_vertices 2 2) (Fin (1/1000000)) 100
        [Call 0, Call 1, Update 0, Call 2, Update 2, Update 1] = Inr (Fin (1/4))
   \<and> dle (Fin 0) (Fin (1/4)) \<and> dle (Fin (1/4)) (Fin 1)"
proof -
  have r: "rows (example_vertices 2 2) = num_vertices (example_mesh 2)"
    by (simp add: example_vertices_def example_mesh_def)
  have len: "length [example_candidate (Some (Fin (1/2))), example_candidate None,
         example_candidate (Some (Fin (1/4)))] = 3"
    by simp
  have v: "valid_interleaving (length [example_candidate (Some (Fin (1/2))), example_candidate None,
         example_candidate (Some (Fin (1/4)))]) [Call 0, Call 1, Update 0, Call 2, Update 2, Update 1]"
    unfolding len by (rule example_valid_interleaving)
  have range: "dle (Fin 0) (Fin (1/4)) \<and> dle (Fin (1/4)) (Fin 1)"
    using compute_collision_free_stepsize_range [OF r r v, of "Fin (1/1000000)" 100]
      example_stepsize
    by blast
  show ?thesis
    using r example_valid_interleaving example_stepsize range by blast
qed

section \<open>Properties of the distance between two lines\<close>

lemma real_dot_cross_left: "real_dot u (real_cross u v) = 0"
  by (cases u; cases v) (simp add: algebra_simps)

lemma real_dot_cross_right: "real_dot v (real_cross u v) = 0"
  by (cases u; cases v) (simp add: algebra_simps)

lemma real_dot_add: "real_dot (real_add a b) n = real_dot a n + real_dot b n"
  by (cases a; cases b; cases n) (simp add: algebra_simps)

lemma real_dot_sub: "real_dot (real_sub a b) n = real_dot a n - real_dot b n"
  by (cases a; cases b; cases n) (simp add: algebra_simps)

lemma real_dot_scale: "real_dot (real_scale k a) n = k * real_dot a n"
  by (cases a; cases n) (simp add: algebra_simps)

lemma real_dot_self_nonneg: "0 \<le> real_dot a a"
  by (cases a) simp

lemma real_dot_self_zero: "real_dot a a = 0 \<longleftrightarrow> a = (0, 0, 0)"
  by (cases a) (auto simp: add_nonneg_eq_0_iff)

lemma lagrange_identity:
  "real_dot p p * real_dot n n
     = (real_dot p n)\<^sup>2 + real_dot (real_cross p n) (real_cross p n)"
  by (cases p; cases n) (simp add: power2_eq_square algebra_simps)

lemma cauchy_schwarz3: "(real_dot p n)\<^sup>2 \<le> real_dot p p * real_dot n n"
  using lagrange_identity [of p n] real_dot_self_nonneg [of "real_cross p n"] by linarith

lemma dot_separation:
  fixes ea0 ea1 eb0 eb1 :: real3
  defines "n \<equiv> real_cross (real_sub ea1 ea0) (real_sub eb1 eb0)"
  shows "real_dot (real_sub (line_point ea0 ea1 s) (line_point eb0 eb1 t)) n
           = - real_dot (real_sub eb0 ea0) n"
  unfolding n_def line_point_def
  by (simp add: real_dot_sub real_dot_add real_dot_scale real_dot_cross_left real_dot_cross_right)

lemma line_distance_lower_bound:
  fixes ea0 ea1 eb0 eb1 :: real3
  defines "n \<equiv> real_cross (real_sub ea1 ea0) (real_sub eb1 eb0)"
  assumes "n \<noteq> (0, 0, 0)"
  shows "(real_dot (real_sub eb0 ea0) n)\<^sup>2 / real_dot n n
           \<le> squared_distance (line_point ea0 ea1 s) (line_point eb0 eb1 t)"
proof -
  let ?p = "real_sub (line_point ea0 ea1 s) (line_point eb0 eb1 t)"
  have pos: "0 < real_dot n n"
    using assms(2) real_dot_self_nonneg [of n] real_dot_self_zero [of n] by linarith
  have "(real_dot (real_sub eb0 ea0) n)\<^sup>2 = (real_dot ?p n)\<^sup>2"
    unfolding n_def by (simp add: dot_separation)
  also have "\<dots> \<le> real_dot ?p ?p * real_dot n n"
    by (rule cauchy_schwarz3)
  finally show ?thesis
    using pos by (simp add: squared_distance_def pos_divide_le_eq)
qed

lemma decomposition:
  fixes u v w :: real3
  defines "n \<equiv> real_cross u v"
  shows "real_scale (real_dot n n) w
     = real_add (real_add (real_scale (real_dot (real_cross w v) n) u)
                          (real_scale (- real_dot (real_cross w u) n) v))
                (real_scale (real_dot w n) n)"
  unfolding n_def
  by (cases u; cases v; cases w) (simp add: algebra_simps)

lemma separation_vector:
  "real_sub (line_point ea0 ea1 s) (line_point eb0 eb1 t)
     = real_sub (real_add (real_scale s (real_sub ea1 ea0)) (real_scale (- t) (real_sub eb1 eb0)))
                (real_sub eb0 ea0)"
  by (cases ea0; cases ea1; cases eb0; cases eb1) (simp add: line_point_def algebra_simps)

lemma solve_component:
  fixes N :: real
  assumes "N \<noteq> 0" and "N * w = A * u + - B * v + C * n"
  shows "A / N * u + - (B / N) * v - w = - C / N * n"
proof -
  have "w = (A * u + - B * v + C * n) / N"
    using assms by (simp add: field_simps)
  then show ?thesis
    using assms(1) by (simp add: field_simps)
qed

lemma solve_vector:
  fixes N :: real
  assumes "N \<noteq> 0"
    and "real_scale N w
           = real_add (real_add (real_scale A u) (real_scale (- B) v)) (real_scale C n)"
  shows "real_sub (real_add (real_scale (A / N) u) (real_scale (- (B / N)) v)) w
           = real_scale (- C / N) n"
proof -
  obtain u0 u1 u2 where u: "u = (u0, u1, u2)" by (cases u) auto
  obtain v0 v1 v2 where v: "v = (v0, v1, v2)" by (cases v) auto
  obtain w0 w1 w2 where w: "w = (w0, w1, w2)" by (cases w) auto
  obtain n0 n1 n2 where n: "n = (n0, n1, n2)" by (cases n) auto
  from assms(2) have e:
    "N * w0 = A * u0 + - B * v0 + C * n0"
    "N * w1 = A * u1 + - B * v1 + C * n1"
    "N * w2 = A * u2 + - B * v2 + C * n2"
    by (simp_all add: u v w n)
  show ?thesis
    using solve_component [OF assms(1) e(1)] solve_component [OF assms(1) e(2)]
      solve_component [OF assms(1) e(3)]
    by (simp add: u v w n)
qed

lemma real_dot_scale_both: "real_dot (real_scale k a) (real_scale k a) = k\<^sup>2 * real_dot a a"
  by (cases a) (simp add: power2_eq_square algebra_simps)

lemma line_distance_attained:
  fixes ea0 ea1 eb0 eb1 :: real3
  defines "n \<equiv> real_cross (real_sub ea1 ea0) (real_sub eb1 eb0)"
  assumes "n \<noteq> (0, 0, 0)"
  shows "\<exists>s t. squared_distance (line_point ea0 ea1 s) (line_point eb0 eb1 t)
           = (real_dot (real_sub eb0 ea0) n)\<^sup>2 / real_dot n n"
proof -
  let ?u = "real_sub ea1 ea0" and ?v = "real_sub eb1 eb0" and ?w = "real_sub eb0 ea0"
  define N where "N = real_dot n n"
  define A where "A = real_dot (real_cross ?w ?v) n"
  define B where "B = real_dot (real_cross ?w ?u) n"
  define C where "C = real_dot ?w n"
  have pos: "0 < N"
    using assms(2) real_dot_self_nonneg [of n] real_dot_self_zero [of n]
    unfolding N_def by linarith
  have "real_scale N ?w
          = real_add (real_add (real_scale A ?u) (real_scale (- B) ?v)) (real_scale C n)"
    unfolding N_def A_def B_def C_def n_def by (rule decomposition)
  with pos have "real_sub (real_add (real_scale (A / N) ?u) (real_scale (- (B / N)) ?v)) ?w
           = real_scale (- C / N) n"
    by (intro solve_vector) simp_all
  then have "real_sub (line_point ea0 ea1 (A / N)) (line_point eb0 eb1 (B / N))
           = real_scale (- C / N) n"
    by (simp add: separation_vector)
  then have "squared_distance (line_point ea0 ea1 (A / N)) (line_point eb0 eb1 (B / N))
           = (- C / N)\<^sup>2 * N"
    by (simp add: squared_distance_def real_dot_scale_both N_def)
  also have "\<dots> = C\<^sup>2 / N"
    using pos by (simp add: power2_eq_square field_simps)
  finally show ?thesis
    unfolding C_def N_def by blast
qed

text \<open>Parallel directions: the cross product vanishes.\<close>

lemma cross_zero_iff_dependent:
  "real_cross u v = (0, 0, 0) \<longleftrightarrow> (u = (0, 0, 0) \<or> (\<exists>k. v = real_scale k u))"
proof
  assume z: "real_cross u v = (0, 0, 0)"
  show "u = (0, 0, 0) \<or> (\<exists>k. v = real_scale k u)"
  proof (cases "u = (0, 0, 0)")
    case True
    then show ?thesis by simp
  next
    case False
    then have pos: "0 < real_dot u u"
      using real_dot_self_nonneg [of u] real_dot_self_zero [of u] by linarith
    obtain u0 u1 u2 where u: "u = (u0, u1, u2)" by (cases u) auto
    obtain v0 v1 v2 where v: "v = (v0, v1, v2)" by (cases v) auto
    from z have c: "u1 * v2 = u2 * v1" "u2 * v0 = u0 * v2" "u0 * v1 = u1 * v0"
      by (simp_all add: u v)
    have "real_scale (real_dot u u) v = real_scale (real_dot u v) u"
      using c by (simp add: u v algebra_simps)
    then have "v = real_scale (real_dot u v / real_dot u u) u"
      using pos by (simp add: u v field_simps)
    then show ?thesis by blast
  qed
next
  assume "u = (0, 0, 0) \<or> (\<exists>k. v = real_scale k u)"
  then show "real_cross u v = (0, 0, 0)"
    by (cases u; cases v) auto
qed

text \<open>
  A product with zero is zero or NaN, so that a zero normal makes both terms of the
  quotient zero or NaN.
\<close>

lemma fmul_zero: "fmul x (Fin 0) = Fin 0 \<or> fmul x (Fin 0) = NaN"
  by (cases x) (simp_all add: fmul_def fl_def)

lemma fadd_zero_or_NaN:
  assumes "x = Fin 0 \<or> x = NaN" and "y = Fin 0 \<or> y = NaN"
  shows "fadd x y = Fin 0 \<or> fadd x y = NaN"
  using assms by (auto simp: fadd_def fl_def)

lemma dot_zero: "dot w (Fin 0, Fin 0, Fin 0) = Fin 0 \<or> dot w (Fin 0, Fin 0, Fin 0) = NaN"
proof -
  obtain w0 w1 w2 where w: "w = (w0, w1, w2)" by (cases w) auto
  show ?thesis
    unfolding w dot.simps
    by (intro fadd_zero_or_NaN fmul_zero)
qed

lemma squaredNorm_zero: "squaredNorm (Fin 0, Fin 0, Fin 0) = Fin 0"
  by (simp add: squaredNorm_def fmul_def fadd_def fl_def)

lemma zero_normal_gives_NaN:
  assumes "cross (vec_sub a1 a0) (vec_sub b1 b0) = (Fin 0, Fin 0, Fin 0)"
  shows "line_line_distance a0 a1 b0 b1 = NaN"
proof -
  let ?l = "dot (vec_sub b0 a0) (Fin 0, Fin 0, Fin 0)"
  have "fmul ?l ?l = Fin 0 \<or> fmul ?l ?l = NaN"
    using dot_zero [of "vec_sub b0 a0"] by (auto simp: fmul_def fl_def)
  then have "fdiv (fmul ?l ?l) (Fin 0) = NaN"
    by (auto simp: fdiv_def)
  then show ?thesis
    by (simp add: line_line_distance_def Let_def assms squaredNorm_zero)
qed

lemma line_line_distance_exact:
  assumes "rounds_nowhere ea0 ea1 eb0 eb1"
  shows "line_line_distance (fin3 ea0) (fin3 ea1) (fin3 eb0) (fin3 eb1) =
     fdiv (Fin ((real_dot (real_sub eb0 ea0) (real_cross (real_sub ea1 ea0) (real_sub eb1 eb0)))\<^sup>2))
          (Fin (real_dot (real_cross (real_sub ea1 ea0) (real_sub eb1 eb0))
                         (real_cross (real_sub ea1 ea0) (real_sub eb1 eb0))))"
  using assms
  by (simp add: rounds_nowhere_def line_line_distance_def Let_def power2_eq_square)

lemma squaredNorm_exact:
  assumes "rounds_nowhere ea0 ea1 eb0 eb1"
  shows "squaredNorm (cross (vec_sub (fin3 ea1) (fin3 ea0)) (vec_sub (fin3 eb1) (fin3 eb0)))
     = Fin (real_dot (real_cross (real_sub ea1 ea0) (real_sub eb1 eb0))
                     (real_cross (real_sub ea1 ea0) (real_sub eb1 eb0)))"
  using assms by (simp add: rounds_nowhere_def Let_def)

text \<open>
  Sums, differences and products of integers are computed without error as long as they
  stay below \<open>2\<^sup>5\<^sup>3\<close>.
\<close>

lemma fl_integer_within:
  assumes "integer_within B x" and "B < 2 ^ 53"
  shows "fl x = Fin x"
proof -
  obtain n where n: "x = of_int n" "\<bar>n\<bar> \<le> B"
    using assms(1) by (auto simp: integer_within_def)
  then have "\<bar>n\<bar> < 2 ^ 53" using assms(2) by linarith
  then show ?thesis unfolding n(1) by (rule fl_of_int)
qed

lemma integer_within_sub:
  assumes "integer_within A x" and "integer_within B y"
  shows "integer_within (A + B) (x - y)"
proof -
  obtain n m where "x = of_int n" "\<bar>n\<bar> \<le> A" "y = of_int m" "\<bar>m\<bar> \<le> B"
    using assms by (auto simp: integer_within_def)
  then have "x - y = of_int (n - m) \<and> \<bar>n - m\<bar> \<le> A + B"
    by simp
  then show ?thesis unfolding integer_within_def by blast
qed

lemma integer_within_add:
  assumes "integer_within A x" and "integer_within B y"
  shows "integer_within (A + B) (x + y)"
proof -
  obtain n m where "x = of_int n" "\<bar>n\<bar> \<le> A" "y = of_int m" "\<bar>m\<bar> \<le> B"
    using assms by (auto simp: integer_within_def)
  then have "x + y = of_int (n + m) \<and> \<bar>n + m\<bar> \<le> A + B"
    by simp
  then show ?thesis unfolding integer_within_def by blast
qed

lemma integer_within_mul:
  assumes "integer_within A x" and "integer_within B y"
  shows "integer_within (A * B) (x * y)"
proof -
  obtain n m where nm: "x = of_int n" "\<bar>n\<bar> \<le> A" "y = of_int m" "\<bar>m\<bar> \<le> B"
    using assms by (auto simp: integer_within_def)
  have "\<bar>n * m\<bar> = \<bar>n\<bar> * \<bar>m\<bar>" by (rule abs_mult)
  also have "\<dots> \<le> A * B"
    using nm(2,4) by (intro mult_mono) simp_all
  finally have "x * y = of_int (n * m) \<and> \<bar>n * m\<bar> \<le> A * B"
    using nm(1,3) by simp
  then show ?thesis unfolding integer_within_def by blast
qed

lemma fsub_integers:
  assumes "integer_within A x" and "integer_within B y" and "A + B < 2 ^ 53"
  shows "fsub (Fin x) (Fin y) = Fin (x - y)"
  using fl_integer_within [OF integer_within_sub [OF assms(1,2)] assms(3)]
  by (simp add: fsub_def)

lemma fadd_integers:
  assumes "integer_within A x" and "integer_within B y" and "A + B < 2 ^ 53"
  shows "fadd (Fin x) (Fin y) = Fin (x + y)"
  using fl_integer_within [OF integer_within_add [OF assms(1,2)] assms(3)]
  by (simp add: fadd_def)

lemma fmul_integers:
  assumes "integer_within A x" and "integer_within B y" and "A * B < 2 ^ 53"
  shows "fmul (Fin x) (Fin y) = Fin (x * y)"
  using fl_integer_within [OF integer_within_mul [OF assms(1,2)] assms(3)]
  by (simp add: fmul_def)

lemma vec_sub_integers:
  assumes "integer_within 100 a0" "integer_within 100 a1" "integer_within 100 a2"
    and "integer_within 100 b0" "integer_within 100 b1" "integer_within 100 b2"
  shows "vec_sub (fin3 (a0, a1, a2)) (fin3 (b0, b1, b2)) = fin3 (real_sub (a0, a1, a2) (b0, b1, b2))"
    and "integer_within 200 (a0 - b0)" "integer_within 200 (a1 - b1)" "integer_within 200 (a2 - b2)"
  using assms fsub_integers [of 100 _ 100] integer_within_sub [of 100 _ 100]
  by simp_all

lemma cross_integers:
  assumes "integer_within 200 a0" "integer_within 200 a1" "integer_within 200 a2"
    and "integer_within 200 b0" "integer_within 200 b1" "integer_within 200 b2"
  shows "cross (fin3 (a0, a1, a2)) (fin3 (b0, b1, b2)) = fin3 (real_cross (a0, a1, a2) (b0, b1, b2))"
    and "integer_within 80000 (a1 * b2 - a2 * b1)"
    and "integer_within 80000 (a2 * b0 - a0 * b2)"
    and "integer_within 80000 (a0 * b1 - a1 * b0)"
proof -
  have p: "integer_within 40000 (x * y)" "fmul (Fin x) (Fin y) = Fin (x * y)"
    if "integer_within 200 x" "integer_within 200 y" for x y
    using integer_within_mul [OF that] fmul_integers [OF that] by simp_all
  have d: "integer_within 80000 (x - y)" "fsub (Fin x) (Fin y) = Fin (x - y)"
    if "integer_within 40000 x" "integer_within 40000 y" for x y
    using integer_within_sub [OF that] fsub_integers [OF that] by simp_all
  show "cross (fin3 (a0, a1, a2)) (fin3 (b0, b1, b2)) = fin3 (real_cross (a0, a1, a2) (b0, b1, b2))"
    using assms by (simp add: p d)
  show "integer_within 80000 (a1 * b2 - a2 * b1)"
    "integer_within 80000 (a2 * b0 - a0 * b2)"
    "integer_within 80000 (a0 * b1 - a1 * b0)"
    using assms by (simp_all add: p d)
qed

lemma dot_integers:
  assumes "integer_within A a0" "integer_within A a1" "integer_within A a2"
    and "integer_within B b0" "integer_within B b1" "integer_within B b2"
    and "3 * (A * B) < 2 ^ 53" and "0 \<le> A * B"
  shows "dot (fin3 (a0, a1, a2)) (fin3 (b0, b1, b2)) = Fin (real_dot (a0, a1, a2) (b0, b1, b2))"
    and "integer_within (3 * (A * B)) (real_dot (a0, a1, a2) (b0, b1, b2))"
proof -
  have p: "integer_within (A * B) (x * y)" "fmul (Fin x) (Fin y) = Fin (x * y)"
    if "integer_within A x" "integer_within B y" for x y
    using integer_within_mul [OF that] fmul_integers [OF that] assms(7,8) by simp_all
  have s2: "integer_within (A * B + A * B) (a0 * b0 + a1 * b1)"
    by (intro integer_within_add p assms)
  have f2: "fadd (Fin (a0 * b0)) (Fin (a1 * b1)) = Fin (a0 * b0 + a1 * b1)"
    using assms(7,8) by (intro fadd_integers [of "A * B" _ "A * B"] p assms) simp
  have s3: "integer_within (A * B + A * B + A * B) (a0 * b0 + a1 * b1 + a2 * b2)"
    by (intro integer_within_add p assms)
  have f3: "fadd (Fin (a0 * b0 + a1 * b1)) (Fin (a2 * b2)) = Fin (a0 * b0 + a1 * b1 + a2 * b2)"
    using fadd_integers [OF s2 p(1) [OF assms(3,6)]] assms(7,8) by simp
  show "dot (fin3 (a0, a1, a2)) (fin3 (b0, b1, b2)) = Fin (real_dot (a0, a1, a2) (b0, b1, b2))"
    using assms(1-6) by (simp add: p f2 f3)
  show "integer_within (3 * (A * B)) (real_dot (a0, a1, a2) (b0, b1, b2))"
    using s3 by (simp add: algebra_simps)
qed

text \<open>
  On integer coordinates of magnitude at most \<open>100\<close> the evaluation rounds nowhere before
  the division: every intermediate value is an integer below \<open>2\<^sup>5\<^sup>3\<close>.
\<close>

lemma small_integers_round_nowhere:
  assumes "\<forall>c\<in>{x0, y0, z0, x1, y1, z1, x2, y2, z2, x3, y3, z3}. integer_within 100 c"
  shows "rounds_nowhere (x0, y0, z0) (x1, y1, z1) (x2, y2, z2) (x3, y3, z3)"
proof -
  have a: "integer_within 100 x0" "integer_within 100 y0" "integer_within 100 z0"
    "integer_within 100 x1" "integer_within 100 y1" "integer_within 100 z1"
    "integer_within 100 x2" "integer_within 100 y2" "integer_within 100 z2"
    "integer_within 100 x3" "integer_within 100 y3" "integer_within 100 z3"
    using assms by simp_all
  note u = vec_sub_integers [OF a(4,5,6) a(1,2,3)]
  note v = vec_sub_integers [OF a(10,11,12) a(7,8,9)]
  note w = vec_sub_integers [OF a(7,8,9) a(1,2,3)]
  note n = cross_integers [OF u(2,3,4) v(2,3,4)]
  have l: "dot (fin3 (x2 - x0, y2 - y0, z2 - z0))
             (fin3 (real_cross (x1 - x0, y1 - y0, z1 - z0) (x3 - x2, y3 - y2, z3 - z2)))
           = Fin (real_dot (x2 - x0, y2 - y0, z2 - z0)
                    (real_cross (x1 - x0, y1 - y0, z1 - z0) (x3 - x2, y3 - y2, z3 - z2)))"
    "integer_within 48000000 (real_dot (x2 - x0, y2 - y0, z2 - z0)
                    (real_cross (x1 - x0, y1 - y0, z1 - z0) (x3 - x2, y3 - y2, z3 - z2)))"
    using dot_integers [OF w(2,3,4) n(2,3,4)] by simp_all
  have ll: "fmul (Fin l') (Fin l') = Fin (l' * l')" if "integer_within 48000000 l'" for l'
    by (rule fmul_integers [OF that that]) simp
  have sq: "squaredNorm (fin3 (real_cross (x1 - x0, y1 - y0, z1 - z0) (x3 - x2, y3 - y2, z3 - z2)))
      = Fin (real_dot (real_cross (x1 - x0, y1 - y0, z1 - z0) (x3 - x2, y3 - y2, z3 - z2))
                      (real_cross (x1 - x0, y1 - y0, z1 - z0) (x3 - x2, y3 - y2, z3 - z2)))"
    unfolding squaredNorm_def using dot_integers(1) [OF n(2,3,4) n(2,3,4)] by simp
  show ?thesis
    unfolding rounds_nowhere_def Let_def
    using u(1) v(1) w(1) n(1) l(1) ll [OF l(2)] sq
    by simp
qed

text \<open>Doubles met in the examples.\<close>

lemma fl_large_numbers:
  "fl (- 9007199254740993) = Fin (- 9007199254740992)"
  "fl (- 27021597764222979) = Fin (- 27021597764222980)"
  "fl (- 9007199254740989) = Fin (- 9007199254740989)"
  "fl (- 27021597764222976) = Fin (- 27021597764222976)"
  "fl (- 27021597764222980) = Fin (- 27021597764222980)"
  using fl_eval [of "- 9007199254740993" 1 "- 4503599627370496"]
    fl_eval [of "- 27021597764222979" 2 "- 6755399441055745"]
    fl_of_int [of "- 9007199254740989"]
    fl_exact [of "- 6755399441055744" 2]
    fl_exact [of "- 6755399441055745" 2]
  by (simp_all add: round_half_even_def)

text \<open>
  C9 (as stated) fails on doubles. The edges from \<open>(2\<^sup>5\<^sup>3, 0, 0)\<close> to \<open>(-1, 1, 0)\<close> and from
  \<open>(3, 0, 1)\<close> to \<open>(-3 * 2\<^sup>5\<^sup>3, 3, 1)\<close> are parallel: the second direction is three times the
  first. The first coordinates of the two directions, \<open>-2\<^sup>5\<^sup>3 - 1\<close> and \<open>-3 * 2\<^sup>5\<^sup>3 - 3\<close>, are
  not doubles and round to \<open>-2\<^sup>5\<^sup>3\<close> and \<open>-3 * 2\<^sup>5\<^sup>3 - 4\<close>; the computed normal is \<open>(0, 0, 4)\<close>,
  the denominator \<open>16\<close> and the result \<open>1\<close>.
\<close>

theorem parallel_edges_nonzero_denominator:
  "real_cross (real_sub (- 1, 1, 0) (9007199254740992, 0, 0))
       (real_sub (- 27021597764222976, 3, 1) (3, 0, 1)) = (0, 0, 0)
   \<and> real_sub (- 27021597764222976, 3, 1) (3, 0, 1)
       = real_scale 3 (real_sub (- 1, 1, 0) (9007199254740992, 0, 0))
   \<and> squaredNorm (cross (vec_sub (fin3 (- 1, 1, 0)) (fin3 (9007199254740992, 0, 0)))
                         (vec_sub (fin3 (- 27021597764222976, 3, 1)) (fin3 (3, 0, 1))))
       = Fin 16
   \<and> line_line_distance (fin3 (9007199254740992, 0, 0)) (fin3 (- 1, 1, 0))
       (fin3 (3, 0, 1)) (fin3 (- 27021597764222976, 3, 1)) = Fin 1"
  by (simp add: line_line_distance_def squaredNorm_def fsub_def fmul_def fadd_def fdiv_def
      fl_small_numbers fl_large_numbers Let_def)

text \<open>
  C9 (amended). \<open>line_line_distance\<close> returns the quotient of \<open>((eb0 - ea0) \<cdot> normal)\<^sup>2\<close> by
  \<open>\<parallel>normal\<parallel>\<^sup>2\<close>, every operation rounding, where \<open>normal\<close> is the computed cross product of
  the computed edge directions. The division is not guarded: a computed normal that is
  zero gives the denominator zero and the result NaN. Two edges are parallel (one
  direction is a multiple of the other, or the first edge is degenerate) exactly when the
  cross product of their directions vanishes. When the evaluation on points with finite
  coordinates rounds nowhere before the division (as on integer coordinates of magnitude
  at most \<open>100\<close>), the denominator is zero exactly when the edges are parallel, and the
  result is then NaN; when the edges are not parallel the result is the squared distance
  of the two lines (no two points of the lines are closer, and two points of the lines
  are at that distance), rounded by the division.
\<close>

theorem line_line_distance_is_squared_distance_unless_parallel:
  "line_line_distance a0 a1 b0 b1
     = fdiv (fmul (dot (vec_sub b0 a0) (cross (vec_sub a1 a0) (vec_sub b1 b0)))
                  (dot (vec_sub b0 a0) (cross (vec_sub a1 a0) (vec_sub b1 b0))))
            (squaredNorm (cross (vec_sub a1 a0) (vec_sub b1 b0)))
   \<and> (cross (vec_sub a1 a0) (vec_sub b1 b0) = (Fin 0, Fin 0, Fin 0) \<longrightarrow>
         squaredNorm (cross (vec_sub a1 a0) (vec_sub b1 b0)) = Fin 0
       \<and> line_line_distance a0 a1 b0 b1 = NaN)
   \<and> (real_cross (real_sub ea1 ea0) (real_sub eb1 eb0) = (0, 0, 0)
        \<longleftrightarrow> (real_sub ea1 ea0 = (0, 0, 0)
             \<or> (\<exists>k. real_sub eb1 eb0 = real_scale k (real_sub ea1 ea0))))
   \<and> (rounds_nowhere ea0 ea1 eb0 eb1 \<longrightarrow>
        (real_cross (real_sub ea1 ea0) (real_sub eb1 eb0) = (0, 0, 0) \<longleftrightarrow>
           squaredNorm (cross (vec_sub (fin3 ea1) (fin3 ea0)) (vec_sub (fin3 eb1) (fin3 eb0)))
             = Fin 0)
      \<and> (real_cross (real_sub ea1 ea0) (real_sub eb1 eb0) = (0, 0, 0) \<longrightarrow>
           line_line_distance (fin3 ea0) (fin3 ea1) (fin3 eb0) (fin3 eb1) = NaN)
      \<and> (real_cross (real_sub ea1 ea0) (real_sub eb1 eb0) \<noteq> (0, 0, 0) \<longrightarrow>
           (\<exists>d. line_line_distance (fin3 ea0) (fin3 ea1) (fin3 eb0) (fin3 eb1) = fl d
              \<and> (\<forall>s t. d \<le> squared_distance (line_point ea0 ea1 s) (line_point eb0 eb1 t))
              \<and> (\<exists>s t. squared_distance (line_point ea0 ea1 s) (line_point eb0 eb1 t) = d))))"
proof (intro conjI impI)
  let ?n = "real_cross (real_sub ea1 ea0) (real_sub eb1 eb0)"
  let ?w = "real_sub eb0 ea0"
  show "line_line_distance a0 a1 b0 b1
     = fdiv (fmul (dot (vec_sub b0 a0) (cross (vec_sub a1 a0) (vec_sub b1 b0)))
                  (dot (vec_sub b0 a0) (cross (vec_sub a1 a0) (vec_sub b1 b0))))
            (squaredNorm (cross (vec_sub a1 a0) (vec_sub b1 b0)))"
    by (simp add: line_line_distance_def Let_def)
  show "?n = (0, 0, 0) \<longleftrightarrow> (real_sub ea1 ea0 = (0, 0, 0)
             \<or> (\<exists>k. real_sub eb1 eb0 = real_scale k (real_sub ea1 ea0)))"
    by (rule cross_zero_iff_dependent)
  {
    assume z: "cross (vec_sub a1 a0) (vec_sub b1 b0) = (Fin 0, Fin 0, Fin 0)"
    show "squaredNorm (cross (vec_sub a1 a0) (vec_sub b1 b0)) = Fin 0"
      unfolding z by (rule squaredNorm_zero)
    show "line_line_distance a0 a1 b0 b1 = NaN"
      using z by (rule zero_normal_gives_NaN)
  }
  {
    assume e: "rounds_nowhere ea0 ea1 eb0 eb1"
    have formula: "line_line_distance (fin3 ea0) (fin3 ea1) (fin3 eb0) (fin3 eb1)
        = fdiv (Fin ((real_dot ?w ?n)\<^sup>2)) (Fin (real_dot ?n ?n))"
      using e by (rule line_line_distance_exact)
    show "?n = (0, 0, 0) \<longleftrightarrow>
           squaredNorm (cross (vec_sub (fin3 ea1) (fin3 ea0)) (vec_sub (fin3 eb1) (fin3 eb0)))
             = Fin 0"
      unfolding squaredNorm_exact [OF e] by (simp add: real_dot_self_zero)
    {
      assume z: "?n = (0, 0, 0)"
      show "line_line_distance (fin3 ea0) (fin3 ea1) (fin3 eb0) (fin3 eb1) = NaN"
        unfolding formula using z by (cases ?w) (simp add: fdiv_def)
    }
    {
      assume nz: "?n \<noteq> (0, 0, 0)"
      let ?d = "(real_dot ?w ?n)\<^sup>2 / real_dot ?n ?n"
      have "real_dot ?n ?n \<noteq> 0"
        using nz by (simp add: real_dot_self_zero)
      then have val: "line_line_distance (fin3 ea0) (fin3 ea1) (fin3 eb0) (fin3 eb1) = fl ?d"
        unfolding formula by (simp add: fdiv_def)
      have low: "\<forall>s t. ?d \<le> squared_distance (line_point ea0 ea1 s) (line_point eb0 eb1 t)"
        using line_distance_lower_bound [OF nz] by blast
      have att: "\<exists>s t. squared_distance (line_point ea0 ea1 s) (line_point eb0 eb1 t) = ?d"
        using line_distance_attained [OF nz] by blast
      show "\<exists>d. line_line_distance (fin3 ea0) (fin3 ea1) (fin3 eb0) (fin3 eb1) = fl d
              \<and> (\<forall>s t. d \<le> squared_distance (line_point ea0 ea1 s) (line_point eb0 eb1 t))
              \<and> (\<exists>s t. squared_distance (line_point ea0 ea1 s) (line_point eb0 eb1 t) = d)"
        using val low att by blast
    }
  }
qed

lemma example_rounds_nowhere:
  "rounds_nowhere (0, 0, 0) (1, 0, 0) (0, 0, 1) (0, 1, 1)"
  "rounds_nowhere (0, 0, 0) (1, 0, 0) (0, 1, 0) (1, 1, 0)"
  by (simp_all add: rounds_nowhere_def squaredNorm_def fsub_def fmul_def fadd_def
      fl_small_numbers Let_def)

lemma example_line_line_distance:
  "line_line_distance (fin3 (0, 0, 0)) (fin3 (1, 0, 0)) (fin3 (0, 0, 1)) (fin3 (0, 1, 1)) = Fin 1"
  by (simp add: line_line_distance_def squaredNorm_def fsub_def fmul_def fadd_def fdiv_def
      fl_small_numbers Let_def)

theorem line_line_distance_is_squared_distance_unless_parallel_witness:
  "rounds_nowhere (0, 0, 0) (1, 0, 0) (0, 0, 1) (0, 1, 1)
   \<and> real_cross (real_sub (1, 0, 0) (0, 0, 0)) (real_sub (0, 1, 1) (0, 0, 1)) \<noteq> (0, 0, 0)
   \<and> (\<exists>d. line_line_distance (fin3 (0, 0, 0)) (fin3 (1, 0, 0)) (fin3 (0, 0, 1)) (fin3 (0, 1, 1))
            = fl d
         \<and> (\<forall>s t. d \<le> squared_distance (line_point (0, 0, 0) (1, 0, 0) s)
                                          (line_point (0, 0, 1) (0, 1, 1) t))
         \<and> (\<exists>s t. squared_distance (line_point (0, 0, 0) (1, 0, 0) s)
                                    (line_point (0, 0, 1) (0, 1, 1) t) = d))
   \<and> line_line_distance (fin3 (0, 0, 0)) (fin3 (1, 0, 0)) (fin3 (0, 0, 1)) (fin3 (0, 1, 1)) = Fin 1
   \<and> rounds_nowhere (0, 0, 0) (1, 0, 0) (0, 1, 0) (1, 1, 0)
   \<and> real_cross (real_sub (1, 0, 0) (0, 0, 0)) (real_sub (1, 1, 0) (0, 1, 0)) = (0, 0, 0)
   \<and> line_line_distance (fin3 (0, 0, 0)) (fin3 (1, 0, 0)) (fin3 (0, 1, 0)) (fin3 (1, 1, 0)) = NaN"
proof -
  have nz: "real_cross (real_sub (1, 0, 0) (0, 0, 0)) (real_sub (0, 1, 1) (0, 0, 1)) \<noteq> (0, 0, 0)"
    by simp
  have z: "real_cross (real_sub (1, 0, 0) (0, 0, 0)) (real_sub (1, 1, 0) (0, 1, 0)) = (0, 0, 0)"
    by simp
  note skew = line_line_distance_is_squared_distance_unless_parallel
      [of _ _ _ _ "(1, 0, 0)" "(0, 0, 0)" "(0, 1, 1)" "(0, 0, 1)",
       THEN conjunct2, THEN conjunct2, THEN conjunct2, THEN mp, OF example_rounds_nowhere(1)]
  note par = line_line_distance_is_squared_distance_unless_parallel
      [of _ _ _ _ "(1, 0, 0)" "(0, 0, 0)" "(1, 1, 0)" "(0, 1, 0)",
       THEN conjunct2, THEN conjunct2, THEN conjunct2, THEN mp, OF example_rounds_nowhere(2)]
  show ?thesis
    by (intro conjI)
      (rule example_rounds_nowhere nz z example_line_line_distance
         skew [THEN conjunct2, THEN conjunct2, THEN mp, OF nz]
         par [THEN conjunct2, THEN conjunct1, THEN mp, OF z])+
qed

section \<open>Properties of the self-intersection detector\<close>

lemma first_intersection_True_iff:
  "first_intersection test cs = Inr True \<longleftrightarrow>
     (\<exists>pre c rest. cs = pre @ c # rest \<and> (\<forall>x\<in>set pre. test x = Inr False)
        \<and> test c = Inr True)"
proof (induction cs)
  case Nil
  then show ?case by simp
next
  case (Cons a cs)
  show ?case
  proof (cases "test a")
    case (Inl e)
    have "\<not> (\<exists>pre c rest. a # cs = pre @ c # rest \<and> (\<forall>x\<in>set pre. test x = Inr False)
        \<and> test c = Inr True)"
    proof
      assume "\<exists>pre c rest. a # cs = pre @ c # rest \<and> (\<forall>x\<in>set pre. test x = Inr False)
        \<and> test c = Inr True"
      then obtain pre c rest where h: "a # cs = pre @ c # rest"
        "\<forall>x\<in>set pre. test x = Inr False" "test c = Inr True" by blast
      then show False using Inl by (cases pre) auto
    qed
    then show ?thesis using Inl by simp
  next
    case (Inr b)
    show ?thesis
    proof (cases b)
      case True
      have "a # cs = [] @ a # cs \<and> (\<forall>x\<in>set []. test x = Inr False) \<and> test a = Inr True"
        using Inr True by simp
      then have "\<exists>pre c rest. a # cs = pre @ c # rest \<and> (\<forall>x\<in>set pre. test x = Inr False)
        \<and> test c = Inr True" by blast
      then show ?thesis using Inr True by simp
    next
      case False
      have "(\<exists>pre c rest. a # cs = pre @ c # rest \<and> (\<forall>x\<in>set pre. test x = Inr False)
                \<and> test c = Inr True)
          \<longleftrightarrow> (\<exists>pre c rest. cs = pre @ c # rest \<and> (\<forall>x\<in>set pre. test x = Inr False)
                \<and> test c = Inr True)" (is "?L \<longleftrightarrow> ?R")
      proof
        assume ?L
        then obtain pre c rest where h: "a # cs = pre @ c # rest"
          "\<forall>x\<in>set pre. test x = Inr False" "test c = Inr True" by blast
        show ?R
        proof (cases pre)
          case Nil
          with h Inr False show ?thesis by simp
        next
          case (Cons p pre')
          with h have "cs = pre' @ c # rest" "\<forall>x\<in>set pre'. test x = Inr False" by simp_all
          with h(3) show ?thesis by blast
        qed
      next
        assume ?R
        then obtain pre c rest where h: "cs = pre @ c # rest"
          "\<forall>x\<in>set pre. test x = Inr False" "test c = Inr True" by blast
        then have "a # cs = (a # pre) @ c # rest" "\<forall>x\<in>set (a # pre). test x = Inr False"
          using Inr False by simp_all
        with h(3) show ?L by blast
      qed
      with Cons.IH show ?thesis using Inr False by simp
    qed
  qed
qed

lemma first_intersection_False_iff:
  "first_intersection test cs = Inr False \<longleftrightarrow> (\<forall>c\<in>set cs. test c = Inr False)"
  by (induction cs) (auto split: sum.splits)

lemma upt_2: "[0..<2] = [0, Suc 0]"
  by (simp add: upt_rec)

lemma upt_3: "[0..<3] = [0, Suc 0, 2]"
  by (simp add: upt_rec numeral_eq_Suc)

text \<open>
  The test of one candidate, by the rows it reads: the exact predicate on them when all
  of them can be read, and an assertion failure of Eigen's otherwise.
\<close>

lemma edge_edge_test_eq:
  "edge_edge_test tools V E (edge0_index, edge1_index) =
     (if entries_in_range V E edge0_index 2 \<and> entries_in_range V E edge1_index 2
      then Inr (segment_segment_intersect tools
                  (take 2 (vertex_row V E edge0_index 0)) (take 2 (vertex_row V E edge0_index 1))
                  (take 2 (vertex_row V E edge1_index 0)) (take 2 (vertex_row V E edge1_index 1)))
      else Inl (AssertionFailed ''index out of range''))"
  by (simp add: edge_edge_test_def and_then_def mat_at_def mat_row_def vertex_row_def
      entries_in_range_def upt_2)

lemma edge_face_test_eq:
  "edge_face_test tools V E F (edge_index, face_index) =
     (if entries_in_range V E edge_index 2 \<and> entries_in_range V F face_index 3
      then Inr (is_edge_intersecting_triangle tools
                  (vertex_row V E edge_index 0) (vertex_row V E edge_index 1)
                  (vertex_row V F face_index 0) (vertex_row V F face_index 1)
                  (vertex_row V F face_index 2))
      else Inl (AssertionFailed ''index out of range''))"
  by (simp add: edge_face_test_def and_then_def mat_at_def mat_row_def vertex_row_def
      entries_in_range_def upt_2 upt_3)

lemma edge_edge_test_iff:
  "edge_edge_test tools V E c = Inr b \<longleftrightarrow>
     (case c of (edge0_index, edge1_index) \<Rightarrow>
        entries_in_range V E edge0_index 2 \<and> entries_in_range V E edge1_index 2
      \<and> segment_segment_intersect tools
          (take 2 (vertex_row V E edge0_index 0)) (take 2 (vertex_row V E edge0_index 1))
          (take 2 (vertex_row V E edge1_index 0)) (take 2 (vertex_row V E edge1_index 1)) = b)"
  by (cases c) (auto simp: edge_edge_test_eq)

lemma edge_face_test_iff:
  "edge_face_test tools V E F c = Inr b \<longleftrightarrow>
     (case c of (edge_index, face_index) \<Rightarrow>
        entries_in_range V E edge_index 2 \<and> entries_in_range V F face_index 3
      \<and> is_edge_intersecting_triangle tools
          (vertex_row V E edge_index 0) (vertex_row V E edge_index 1)
          (vertex_row V F face_index 0) (vertex_row V F face_index 1)
          (vertex_row V F face_index 2) = b)"
  by (cases c) (auto simp: edge_face_test_eq)

lemma has_intersections_2D:
  assumes "rows V = num_vertices mesh" and "cols V = 2"
  shows "has_intersections tools mesh V method =
      first_intersection (edge_edge_test tools V (edges mesh))
        (detect_edge_edge_candidates tools method (can_collide mesh) V (edges mesh)
           (faces mesh) (fmul (fl (1 / 100)) (world_bbox_diagonal_length tools V)))"
  using assms by (simp add: has_intersections_def Let_def)

lemma has_intersections_3D:
  assumes "rows V = num_vertices mesh" and "cols V = 3"
  shows "has_intersections tools mesh V method =
      first_intersection (edge_face_test tools V (edges mesh) (faces mesh))
        (detect_edge_face_candidates tools method (can_collide mesh) V (edges mesh)
           (faces mesh) (fmul (fl (1 / 100)) (world_bbox_diagonal_length tools V)))"
  using assms by (simp add: has_intersections_def Let_def)

lemma example_rows:
  "rows example_vertices_2D = num_vertices example_mesh_2D" "cols example_vertices_2D = 2"
  "rows example_vertices_3D = num_vertices example_mesh_3D" "cols example_vertices_3D = 3"
  by (simp_all add: example_vertices_2D_def example_mesh_2D_def example_vertices_3D_def
      example_mesh_3D_def example_matrix_def)

lemma example_candidates:
  "detect_edge_edge_candidates (example_tools ee ef) = (\<lambda>method filter V E F radius. ee)"
  "detect_edge_face_candidates (example_tools ee ef) = (\<lambda>method filter V E F radius. ef)"
  by (simp_all add: example_tools_def)

lemma example_2D_in_range:
  "entries_in_range example_vertices_2D (edges example_mesh_2D) 0 2"
  "entries_in_range example_vertices_2D (edges example_mesh_2D) 1 2"
  "entries_in_range example_vertices_2D (edges example_mesh_2D) 2 2"
  by (simp_all add: entries_in_range_def example_vertices_2D_def example_mesh_2D_def
      example_matrix_def upt_2)

lemma example_2D_predicate:
  "\<not> segment_segment_intersect (example_tools ee ef)
       (take 2 (vertex_row example_vertices_2D (edges example_mesh_2D) 0 0))
       (take 2 (vertex_row example_vertices_2D (edges example_mesh_2D) 0 1))
       (take 2 (vertex_row example_vertices_2D (edges example_mesh_2D) 1 0))
       (take 2 (vertex_row example_vertices_2D (edges example_mesh_2D) 1 1))"
  "segment_segment_intersect (example_tools ee ef)
       (take 2 (vertex_row example_vertices_2D (edges example_mesh_2D) 0 0))
       (take 2 (vertex_row example_vertices_2D (edges example_mesh_2D) 0 1))
       (take 2 (vertex_row example_vertices_2D (edges example_mesh_2D) 2 0))
       (take 2 (vertex_row example_vertices_2D (edges example_mesh_2D) 2 1))"
  by (simp_all add: vertex_row_def example_tools_def example_vertices_2D_def
      example_mesh_2D_def example_matrix_def example_segments_cross_def upt_2)

lemma example_3D_in_range:
  "entries_in_range example_vertices_3D (edges example_mesh_3D) 0 2"
  "entries_in_range example_vertices_3D (edges example_mesh_3D) 1 2"
  "entries_in_range example_vertices_3D (faces example_mesh_3D) 0 3"
  by (simp_all add: entries_in_range_def example_vertices_3D_def example_mesh_3D_def
      example_matrix_def upt_2 upt_3)

lemma example_3D_predicate:
  "is_edge_intersecting_triangle (example_tools ee ef)
       (vertex_row example_vertices_3D (edges example_mesh_3D) 0 0)
       (vertex_row example_vertices_3D (edges example_mesh_3D) 0 1)
       (vertex_row example_vertices_3D (faces example_mesh_3D) 0 0)
       (vertex_row example_vertices_3D (faces example_mesh_3D) 0 1)
       (vertex_row example_vertices_3D (faces example_mesh_3D) 0 2)"
  "\<not> is_edge_intersecting_triangle (example_tools ee ef)
       (vertex_row example_vertices_3D (edges example_mesh_3D) 1 0)
       (vertex_row example_vertices_3D (edges example_mesh_3D) 1 1)
       (vertex_row example_vertices_3D (faces example_mesh_3D) 0 0)
       (vertex_row example_vertices_3D (faces example_mesh_3D) 0 1)
       (vertex_row example_vertices_3D (faces example_mesh_3D) 0 2)"
  by (simp_all add: vertex_row_def example_tools_def example_vertices_3D_def
      example_mesh_3D_def example_matrix_def upt_3)

text \<open>
  C8. With the vertex count of \<open>V\<close> matching the mesh, \<open>has_intersections\<close> asks the broad
  phase, built with the inflation radius \<^verbatim>\<open>1e-2\<close> times the bounding-box diagonal, for the
  edge-edge candidates when \<open>V\<close> has two columns and for the edge-face candidates when it
  has three (any other number of columns fails the assertion), and tests them in order.
  In two dimensions it returns true exactly when, for some candidate, \<open>segment_segment_intersect\<close>
  holds of the first two coordinates of the rows of \<open>V\<close> named by the two ends of its two
  edges, and fails for every candidate before it, whatever candidates follow (they are
  not tested); it returns false exactly when the predicate fails for every candidate. In
  three dimensions the same holds of \<open>is_edge_intersecting_triangle\<close> on the rows of \<open>V\<close>
  named by the two ends of the candidate's edge and the three corners of its face. The
  candidates tested name rows that exist; reading one that does not is an assertion
  failure of Eigen's, neither true nor false.
\<close>

theorem has_intersections_first_confirmed_intersection:
  assumes "rows V = num_vertices mesh"
  shows
    "(cols V = 2 \<longrightarrow>
       (has_intersections tools mesh V method = Inr True \<longleftrightarrow>
          (\<exists>pre edge0_index edge1_index rest.
             detect_edge_edge_candidates tools method (can_collide mesh) V (edges mesh)
               (faces mesh) (fmul (fl (1 / 100)) (world_bbox_diagonal_length tools V))
               = pre @ (edge0_index, edge1_index) # rest
           \<and> (\<forall>(a, b)\<in>set pre.
                 entries_in_range V (edges mesh) a 2 \<and> entries_in_range V (edges mesh) b 2
               \<and> \<not> segment_segment_intersect tools
                     (take 2 (vertex_row V (edges mesh) a 0))
                     (take 2 (vertex_row V (edges mesh) a 1))
                     (take 2 (vertex_row V (edges mesh) b 0))
                     (take 2 (vertex_row V (edges mesh) b 1)))
           \<and> entries_in_range V (edges mesh) edge0_index 2
           \<and> entries_in_range V (edges mesh) edge1_index 2
           \<and> segment_segment_intersect tools
               (take 2 (vertex_row V (edges mesh) edge0_index 0))
               (take 2 (vertex_row V (edges mesh) edge0_index 1))
               (take 2 (vertex_row V (edges mesh) edge1_index 0))
               (take 2 (vertex_row V (edges mesh) edge1_index 1))))
     \<and> (has_intersections tools mesh V method = Inr False \<longleftrightarrow>
          (\<forall>(a, b)\<in>set (detect_edge_edge_candidates tools method (can_collide mesh) V
                            (edges mesh) (faces mesh)
                            (fmul (fl (1 / 100)) (world_bbox_diagonal_length tools V))).
              entries_in_range V (edges mesh) a 2 \<and> entries_in_range V (edges mesh) b 2
            \<and> \<not> segment_segment_intersect tools
                  (take 2 (vertex_row V (edges mesh) a 0))
                  (take 2 (vertex_row V (edges mesh) a 1))
                  (take 2 (vertex_row V (edges mesh) b 0))
                  (take 2 (vertex_row V (edges mesh) b 1)))))
   \<and> (cols V = 3 \<longrightarrow>
       (has_intersections tools mesh V method = Inr True \<longleftrightarrow>
          (\<exists>pre edge_index face_index rest.
             detect_edge_face_candidates tools method (can_collide mesh) V (edges mesh)
               (faces mesh) (fmul (fl (1 / 100)) (world_bbox_diagonal_length tools V))
               = pre @ (edge_index, face_index) # rest
           \<and> (\<forall>(e, f)\<in>set pre.
                 entries_in_range V (edges mesh) e 2 \<and> entries_in_range V (faces mesh) f 3
               \<and> \<not> is_edge_intersecting_triangle tools
                     (vertex_row V (edges mesh) e 0) (vertex_row V (edges mesh) e 1)
                     (vertex_row V (faces mesh) f 0) (vertex_row V (faces mesh) f 1)
                     (vertex_row V (faces mesh) f 2))
           \<and> entries_in_range V (edges mesh) edge_index 2
           \<and> entries_in_range V (faces mesh) face_index 3
           \<and> is_edge_intersecting_triangle tools
               (vertex_row V (edges mesh) edge_index 0) (vertex_row V (edges mesh) edge_index 1)
               (vertex_row V (faces mesh) face_index 0) (vertex_row V (faces mesh) face_index 1)
               (vertex_row V (faces mesh) face_index 2)))
     \<and> (has_intersections tools mesh V method = Inr False \<longleftrightarrow>
          (\<forall>(e, f)\<in>set (detect_edge_face_candidates tools method (can_collide mesh) V
                            (edges mesh) (faces mesh)
                            (fmul (fl (1 / 100)) (world_bbox_diagonal_length tools V))).
              entries_in_range V (edges mesh) e 2 \<and> entries_in_range V (faces mesh) f 3
            \<and> \<not> is_edge_intersecting_triangle tools
                  (vertex_row V (edges mesh) e 0) (vertex_row V (edges mesh) e 1)
                  (vertex_row V (faces mesh) f 0) (vertex_row V (faces mesh) f 1)
                  (vertex_row V (faces mesh) f 2))))
   \<and> (cols V \<noteq> 2 \<and> cols V \<noteq> 3 \<longrightarrow>
       has_intersections tools mesh V method = Inl (AssertionFailed ''V.cols() == 3''))"
proof (intro conjI impI)
  assume c: "cols V = 2"
  let ?cands = "detect_edge_edge_candidates tools method (can_collide mesh) V (edges mesh)
      (faces mesh) (fmul (fl (1 / 100)) (world_bbox_diagonal_length tools V))"
  let ?P = "\<lambda>a b. entries_in_range V (edges mesh) a 2 \<and> entries_in_range V (edges mesh) b 2
      \<and> \<not> segment_segment_intersect tools
            (take 2 (vertex_row V (edges mesh) a 0)) (take 2 (vertex_row V (edges mesh) a 1))
            (take 2 (vertex_row V (edges mesh) b 0)) (take 2 (vertex_row V (edges mesh) b 1))"
  let ?Q = "\<lambda>a b. entries_in_range V (edges mesh) a 2 \<and> entries_in_range V (edges mesh) b 2
      \<and> segment_segment_intersect tools
            (take 2 (vertex_row V (edges mesh) a 0)) (take 2 (vertex_row V (edges mesh) a 1))
            (take 2 (vertex_row V (edges mesh) b 0)) (take 2 (vertex_row V (edges mesh) b 1))"
  have miss: "edge_edge_test tools V (edges mesh) x = Inr False \<longleftrightarrow> (case x of (a, b) \<Rightarrow> ?P a b)"
    for x by (simp add: edge_edge_test_iff split: prod.splits)
  have hit: "edge_edge_test tools V (edges mesh) x = Inr True \<longleftrightarrow> (case x of (a, b) \<Rightarrow> ?Q a b)"
    for x by (simp add: edge_edge_test_iff split: prod.splits)
  have "has_intersections tools mesh V method = Inr True \<longleftrightarrow>
      (\<exists>pre x rest. ?cands = pre @ x # rest \<and> (\<forall>y\<in>set pre. case y of (a, b) \<Rightarrow> ?P a b)
         \<and> (case x of (a, b) \<Rightarrow> ?Q a b))"
    unfolding has_intersections_2D [OF assms c] first_intersection_True_iff miss hit ..
  also have "\<dots> \<longleftrightarrow>
      (\<exists>pre edge0_index edge1_index rest. ?cands = pre @ (edge0_index, edge1_index) # rest
         \<and> (\<forall>(a, b)\<in>set pre. ?P a b) \<and> ?Q edge0_index edge1_index)"
    by auto
  finally show "has_intersections tools mesh V method = Inr True \<longleftrightarrow>
      (\<exists>pre edge0_index edge1_index rest. ?cands = pre @ (edge0_index, edge1_index) # rest
         \<and> (\<forall>(a, b)\<in>set pre. ?P a b)
         \<and> entries_in_range V (edges mesh) edge0_index 2
         \<and> entries_in_range V (edges mesh) edge1_index 2
         \<and> segment_segment_intersect tools
             (take 2 (vertex_row V (edges mesh) edge0_index 0))
             (take 2 (vertex_row V (edges mesh) edge0_index 1))
             (take 2 (vertex_row V (edges mesh) edge1_index 0))
             (take 2 (vertex_row V (edges mesh) edge1_index 1)))"
    by simp
  show "has_intersections tools mesh V method = Inr False \<longleftrightarrow> (\<forall>(a, b)\<in>set ?cands. ?P a b)"
    unfolding has_intersections_2D [OF assms c] first_intersection_False_iff miss ..
next
  assume c: "cols V = 3"
  let ?cands = "detect_edge_face_candidates tools method (can_collide mesh) V (edges mesh)
      (faces mesh) (fmul (fl (1 / 100)) (world_bbox_diagonal_length tools V))"
  let ?P = "\<lambda>e f. entries_in_range V (edges mesh) e 2 \<and> entries_in_range V (faces mesh) f 3
      \<and> \<not> is_edge_intersecting_triangle tools
            (vertex_row V (edges mesh) e 0) (vertex_row V (edges mesh) e 1)
            (vertex_row V (faces mesh) f 0) (vertex_row V (faces mesh) f 1)
            (vertex_row V (faces mesh) f 2)"
  let ?Q = "\<lambda>e f. entries_in_range V (edges mesh) e 2 \<and> entries_in_range V (faces mesh) f 3
      \<and> is_edge_intersecting_triangle tools
            (vertex_row V (edges mesh) e 0) (vertex_row V (edges mesh) e 1)
            (vertex_row V (faces mesh) f 0) (vertex_row V (faces mesh) f 1)
            (vertex_row V (faces mesh) f 2)"
  have miss: "edge_face_test tools V (edges mesh) (faces mesh) x = Inr False
      \<longleftrightarrow> (case x of (e, f) \<Rightarrow> ?P e f)"
    for x by (simp add: edge_face_test_iff split: prod.splits)
  have hit: "edge_face_test tools V (edges mesh) (faces mesh) x = Inr True
      \<longleftrightarrow> (case x of (e, f) \<Rightarrow> ?Q e f)"
    for x by (simp add: edge_face_test_iff split: prod.splits)
  have "has_intersections tools mesh V method = Inr True \<longleftrightarrow>
      (\<exists>pre x rest. ?cands = pre @ x # rest \<and> (\<forall>y\<in>set pre. case y of (e, f) \<Rightarrow> ?P e f)
         \<and> (case x of (e, f) \<Rightarrow> ?Q e f))"
    unfolding has_intersections_3D [OF assms c] first_intersection_True_iff miss hit ..
  also have "\<dots> \<longleftrightarrow>
      (\<exists>pre edge_index face_index rest. ?cands = pre @ (edge_index, face_index) # rest
         \<and> (\<forall>(e, f)\<in>set pre. ?P e f) \<and> ?Q edge_index face_index)"
    by auto
  finally show "has_intersections tools mesh V method = Inr True \<longleftrightarrow>
      (\<exists>pre edge_index face_index rest. ?cands = pre @ (edge_index, face_index) # rest
         \<and> (\<forall>(e, f)\<in>set pre. ?P e f)
         \<and> entries_in_range V (edges mesh) edge_index 2
         \<and> entries_in_range V (faces mesh) face_index 3
         \<and> is_edge_intersecting_triangle tools
             (vertex_row V (edges mesh) edge_index 0) (vertex_row V (edges mesh) edge_index 1)
             (vertex_row V (faces mesh) face_index 0) (vertex_row V (faces mesh) face_index 1)
             (vertex_row V (faces mesh) face_index 2))"
    by simp
  show "has_intersections tools mesh V method = Inr False \<longleftrightarrow> (\<forall>(e, f)\<in>set ?cands. ?P e f)"
    unfolding has_intersections_3D [OF assms c] first_intersection_False_iff miss ..
next
  assume "cols V \<noteq> 2 \<and> cols V \<noteq> 3"
  then show "has_intersections tools mesh V method = Inl (AssertionFailed ''V.cols() == 3'')"
    using assms by (simp add: has_intersections_def Let_def)
qed

theorem has_intersections_first_confirmed_intersection_witness:
  "rows example_vertices_2D = num_vertices example_mesh_2D
   \<and> cols example_vertices_2D = 2
   \<and> \<not> segment_segment_intersect (example_tools [(0, 1), (0, 2), (9, 9)] [])
         (take 2 (vertex_row example_vertices_2D (edges example_mesh_2D) 0 0))
         (take 2 (vertex_row example_vertices_2D (edges example_mesh_2D) 0 1))
         (take 2 (vertex_row example_vertices_2D (edges example_mesh_2D) 1 0))
         (take 2 (vertex_row example_vertices_2D (edges example_mesh_2D) 1 1))
   \<and> segment_segment_intersect (example_tools [(0, 1), (0, 2), (9, 9)] [])
       (take 2 (vertex_row example_vertices_2D (edges example_mesh_2D) 0 0))
       (take 2 (vertex_row example_vertices_2D (edges example_mesh_2D) 0 1))
       (take 2 (vertex_row example_vertices_2D (edges example_mesh_2D) 2 0))
       (take 2 (vertex_row example_vertices_2D (edges example_mesh_2D) 2 1))
   \<and> has_intersections (example_tools [(0, 1), (0, 2), (9, 9)] []) example_mesh_2D
       example_vertices_2D () = Inr True
   \<and> has_intersections (example_tools [(0, 1)] []) example_mesh_2D
       example_vertices_2D () = Inr False
   \<and> rows example_vertices_3D = num_vertices example_mesh_3D
   \<and> cols example_vertices_3D = 3
   \<and> \<not> is_edge_intersecting_triangle (example_tools [] [(1, 0), (0, 0), (7, 7)])
         (vertex_row example_vertices_3D (edges example_mesh_3D) 1 0)
         (vertex_row example_vertices_3D (edges example_mesh_3D) 1 1)
         (vertex_row example_vertices_3D (faces example_mesh_3D) 0 0)
         (vertex_row example_vertices_3D (faces example_mesh_3D) 0 1)
         (vertex_row example_vertices_3D (faces example_mesh_3D) 0 2)
   \<and> is_edge_intersecting_triangle (example_tools [] [(1, 0), (0, 0), (7, 7)])
       (vertex_row example_vertices_3D (edges example_mesh_3D) 0 0)
       (vertex_row example_vertices_3D (edges example_mesh_3D) 0 1)
       (vertex_row example_vertices_3D (faces example_mesh_3D) 0 0)
       (vertex_row example_vertices_3D (faces example_mesh_3D) 0 1)
       (vertex_row example_vertices_3D (faces example_mesh_3D) 0 2)
   \<and> has_intersections (example_tools [] [(1, 0), (0, 0), (7, 7)]) example_mesh_3D
       example_vertices_3D () = Inr True
   \<and> has_intersections (example_tools [] [(1, 0)]) example_mesh_3D
       example_vertices_3D () = Inr False"
proof -
  note t2 = has_intersections_first_confirmed_intersection
      [OF example_rows(1), of "example_tools [(0, 1), (0, 2), (9, 9)] []" "()",
       THEN conjunct1, THEN mp, OF example_rows(2), THEN conjunct1, THEN iffD2,
       unfolded example_candidates]
  note f2 = has_intersections_first_confirmed_intersection
      [OF example_rows(1), of "example_tools [(0, 1)] []" "()",
       THEN conjunct1, THEN mp, OF example_rows(2), THEN conjunct2, THEN iffD2,
       unfolded example_candidates]
  note t3 = has_intersections_first_confirmed_intersection
      [OF example_rows(3), of "example_tools [] [(1, 0), (0, 0), (7, 7)]" "()",
       THEN conjunct2, THEN conjunct1, THEN mp, OF example_rows(4), THEN conjunct1, THEN iffD2,
       unfolded example_candidates]
  note f3 = has_intersections_first_confirmed_intersection
      [OF example_rows(3), of "example_tools [] [(1, 0)]" "()",
       THEN conjunct2, THEN conjunct1, THEN mp, OF example_rows(4), THEN conjunct2, THEN iffD2,
       unfolded example_candidates]
  have true2: "has_intersections (example_tools [(0, 1), (0, 2), (9, 9)] []) example_mesh_2D
       example_vertices_2D () = Inr True"
    by (rule t2, rule exI [of _ "[(0, 1)]"], rule exI [of _ 0], rule exI [of _ 2],
        rule exI [of _ "[(9, 9)]"])
      (simp add: example_2D_in_range example_2D_predicate del: One_nat_def)
  have false2: "has_intersections (example_tools [(0, 1)] []) example_mesh_2D
       example_vertices_2D () = Inr False"
    by (rule f2) (simp add: example_2D_in_range example_2D_predicate del: One_nat_def)
  have true3: "has_intersections (example_tools [] [(1, 0), (0, 0), (7, 7)]) example_mesh_3D
       example_vertices_3D () = Inr True"
    by (rule t3, rule exI [of _ "[(1, 0)]"], rule exI [of _ 0], rule exI [of _ 0],
        rule exI [of _ "[(7, 7)]"])
      (simp add: example_3D_in_range example_3D_predicate del: One_nat_def)
  have false3: "has_intersections (example_tools [] [(1, 0)]) example_mesh_3D
       example_vertices_3D () = Inr False"
    by (rule f3) (simp add: example_3D_in_range example_3D_predicate del: One_nat_def)
  show ?thesis
    by (intro conjI)
      (rule example_rows example_2D_predicate example_3D_predicate true2 false2 true3 false3)+
qed

end
